theory Spec2Isabelle
  imports Main "HOL-Library.Word" "HOL-Library.Signed_Division"
    "HOL-Library.Product_Lexorder"
begin

section \<open>Data model (src/db/database.go, the models at its end)\<close>

text \<open>
  Go's \<open>int\<close> is a 64-bit two's complement integer on the platforms the SQLite driver
  targets: it is a \<open>64 word\<close>, read through \<open>sint\<close>, with wrapping arithmetic.
  A \<open>float64\<close> is only stored and returned, never computed with: it is its IEEE-754 bit
  pattern. A Go pointer field (\<open>*int\<close>, \<open>*time.Time\<close>, \<open>*string\<close>) is an option:
  \<open>nil\<close> is \<open>None\<close>, and a nullable column scanned into it is \<open>None\<close> when NULL.

  A time column that SQLite fills itself (\<open>DEFAULT CURRENT_TIMESTAMP\<close>: start_time,
  created_at, updated_at) holds UTC text of one fixed format, so its text order is the
  order of the instants: such a value is a point on a linear time axis, and so is a
  \<open>time.Time\<close> that is only stored and returned (stop_time, resolved_at). The
  timestamp of a meter value is supplied by the caller and the rows are ordered by it:
  the driver stores a \<open>time.Time\<close> as the text
  \<open>2006-01-02 15:04:05.999999999-07:00\<close>, the date and time of day in the
  value's own zone followed by the zone offset, and SQLite compares these texts.
  So a \<open>zoned_time\<close> keeps the local date and time of day \<open>zt_wall\<close> (in
  nanoseconds, as the text shows it) and the zone offset \<open>zt_offset\<close> (in minutes east
  of UTC); the instant is \<open>zt_wall\<close> less the offset. \<open>text_key\<close> orders as the
  stored texts do: by local date and time of day first, then by the offset text, where
  \<open>+\<close> sorts before \<open>-\<close> and a greater magnitude sorts later.
\<close>

type_synonym go_int = "64 word"
type_synonym float64 = "64 word"
type_synonym time = int

record zoned_time =
  zt_wall :: int
  zt_offset :: int

definition text_key :: "zoned_time \<Rightarrow> int \<times> int \<times> int" where
  "text_key z = (zt_wall z, if 0 \<le> zt_offset z then 0 else 1, \<bar>zt_offset z\<bar>)"

record Charger =
  ch_ID :: string
  ch_Name :: string
  ch_Vendor :: string
  ch_Model :: string
  ch_SerialNumber :: string
  ch_FirmwareVersion :: string
  ch_ICCID :: string
  ch_IMSI :: string
  ch_Status :: string
  ch_IsConnected :: bool
  ch_LastHeartbeatAt :: "time option"
  ch_LastBootAt :: "time option"
  ch_LastConnectAt :: "time option"
  ch_LastTxStartAt :: "time option"
  ch_LastTxStopAt :: "time option"
  ch_CreatedAt :: time
  ch_UpdatedAt :: time

record Transaction =
  tx_ID :: go_int
  tx_TransactionID :: "go_int option"
  tx_ChargerID :: string
  tx_ConnectorID :: go_int
  tx_IDTag :: string
  tx_StartTime :: time
  tx_StopTime :: "time option"
  tx_MeterStart :: go_int
  tx_MeterStop :: "go_int option"
  tx_EnergyDelivered :: go_int
  tx_StopReason :: string
  tx_Status :: string
  tx_CreatedAt :: time
  tx_UpdatedAt :: time

record MeterValue =
  mv_ID :: go_int
  mv_TransactionID :: "go_int option"
  mv_ChargerID :: string
  mv_ConnectorID :: go_int
  mv_Timestamp :: zoned_time
  mv_Measurand :: string
  mv_Value :: float64
  mv_Unit :: string
  mv_Context :: string
  mv_Location :: string
  mv_Phase :: string
  mv_Format :: string
  mv_CreatedAt :: time

record ChargerError =
  ce_ID :: go_int
  ce_ChargerID :: string
  ce_ConnectorID :: "go_int option"
  ce_ErrorCode :: string
  ce_VendorErrorCode :: string
  ce_ErrorDescription :: string
  ce_VendorErrorInfo :: string
  ce_Timestamp :: time
  ce_ResolvedAt :: "time option"
  ce_CreatedAt :: time

record UpdateChargerRequest =
  ucr_Name :: "string option"
  ucr_Vendor :: "string option"
  ucr_Model :: "string option"
  ucr_SerialNumber :: "string option"
  ucr_FirmwareVersion :: "string option"
  ucr_ICCID :: "string option"
  ucr_IMSI :: "string option"
  ucr_Status :: "string option"
  ucr_IsConnected :: "bool option"

record CreateTransactionRequest =
  ctr_TransactionID :: "go_int option"
  ctr_ChargerID :: string
  ctr_ConnectorID :: go_int
  ctr_IDTag :: string
  ctr_MeterStart :: go_int

record UpdateTransactionRequest =
  utr_MeterStop :: "go_int option"
  utr_StopTime :: "time option"
  utr_EnergyDelivered :: "go_int option"
  utr_StopReason :: "string option"
  utr_Status :: "string option"

record ListOptions =
  lo_Limit :: go_int
  lo_Offset :: go_int
  lo_OrderBy :: string
  lo_SortDir :: string

section \<open>Errors\<close>

text \<open>
  The repositories report errors as \<open>fmt.Errorf\<close> values. \<open>NotFound e\<close> is the message
  "\<open>e\<close> not found: <key>"; \<open>Wrapped ctx err\<close> is \<open>fmt.Errorf("ctx: %w", err)\<close>;
  \<open>ErrNoRows\<close> is \<open>sql.ErrNoRows\<close>; \<open>DriverError\<close> is any other failure the SQL driver
  reports (I/O, lock timeout, constraint violation). \<open>IdentifierExhausted\<close> is "failed to
  generate unique transaction ID after 10 attempts" and \<open>DirtyState\<close> is "database is in
  dirty state, cannot rollback safely". \<open>ErrDatabaseClosed\<close> is "sql: database is
  closed", \<open>SourceError\<close> the failure to open the migration source, \<open>ScriptFailed v\<close>
  the failure of a migration script of version \<open>v\<close>. The remaining constructors are
  the sentinel errors of the migration library.
\<close>

datatype error =
    ErrNoRows
  | DriverError
  | NotFound string
  | IdentifierExhausted
  | DirtyState
  | Wrapped string error
  | ErrNilVersion
  | ErrNoChange
  | ErrDirty int
  | ErrInvalidVersion
  | ErrNotExist
  | ScriptFailed nat
  | ErrDatabaseClosed
  | SourceError

section \<open>The store behind the Executor interface\<close>

text \<open>
  The tables of sql/migrations/001_initial.up.sql as lists of rows in insertion order,
  the AUTOINCREMENT counter of \<open>transactions\<close>, and a fault schedule: the head of
  \<open>faults\<close> says whether the next statement sent to the driver fails before touching
  the tables; an empty schedule is a store that never fails.
\<close>

record Database =
  chargers :: "Charger list"
  transactions :: "Transaction list"
  meter_values :: "MeterValue list"
  charger_errors :: "ChargerError list"
  seq_transactions :: go_int
  faults :: "bool list"

definition exec_stmt :: "Database \<Rightarrow> bool \<times> Database" where
  "exec_stmt d =
     (case faults d of
        [] \<Rightarrow> (True, d)
      | f # fs \<Rightarrow> (\<not> f, d\<lparr>faults := fs\<rparr>))"

definition fault_at :: "Database \<Rightarrow> nat \<Rightarrow> bool" where
  "fault_at d k = (k < length (faults d) \<and> faults d ! k)"

text \<open>\<open>ORDER BY key DESC LIMIT 1\<close>: the row with the greatest key, the earliest
  inserted one among equal keys.\<close>

fun latest_by :: "('a \<Rightarrow> 'k::linorder) \<Rightarrow> 'a list \<Rightarrow> 'a option" where
  "latest_by key [] = None"
| "latest_by key (x # xs) =
     (case latest_by key xs of
        None \<Rightarrow> Some x
      | Some y \<Rightarrow> if key x < key y then Some y else Some x)"

section \<open>Transaction repository (src/db/repository_manager.go)\<close>

definition GetByID :: "Database \<Rightarrow> go_int \<Rightarrow> (error + Transaction) \<times> Database" where
  "GetByID d i =
     (case exec_stmt d of
        (False, d1) \<Rightarrow> (Inl (Wrapped ''failed to get transaction'' DriverError), d1)
      | (True, d1) \<Rightarrow>
          (case find (\<lambda>t. tx_ID t = i) (transactions d1) of
             None \<Rightarrow> (Inl (NotFound ''transaction''), d1)
           | Some t \<Rightarrow> (Inr t, d1)))"

definition is_active_on :: "string \<Rightarrow> go_int \<Rightarrow> Transaction \<Rightarrow> bool" where
  "is_active_on chargerID connectorID t =
     (tx_ChargerID t = chargerID \<and> tx_ConnectorID t = connectorID \<and> tx_Status t = ''Active'')"

definition GetActiveByConnector ::
    "Database \<Rightarrow> string \<Rightarrow> go_int \<Rightarrow> (error + Transaction option) \<times> Database" where
  "GetActiveByConnector d chargerID connectorID =
     (case exec_stmt d of
        (False, d1) \<Rightarrow>
          (Inl (Wrapped ''failed to get active transaction by connector'' DriverError), d1)
      | (True, d1) \<Rightarrow>
          (case latest_by tx_StartTime
                  (filter (is_active_on chargerID connectorID) (transactions d1)) of
             None \<Rightarrow> (Inr None, d1)
           | Some t \<Rightarrow> (Inr (Some t), d1)))"

subsection \<open>GenerateTransactionID\<close>

text \<open>What one pass of the loop reads from outside the store: \<open>time.Now().Unix()\<close>,
  \<open>rand.Int31n(1000)\<close>, and the second \<open>time.Now().Unix()\<close> of the fallback.\<close>

record gen_input =
  gi_now :: "64 word"
  gi_random :: "32 word"
  gi_now2 :: "64 word"

definition candidateID :: "gen_input \<Rightarrow> go_int" where
  "candidateID g =
     (let c = gi_now g * 1000 + scast (gi_random g)
      in if c \<le>s 0 then word_of_int (sint (gi_now2 g) smod 2147483647) else c)"

definition count_transaction_id :: "Database \<Rightarrow> go_int \<Rightarrow> nat" where
  "count_transaction_id d c =
     length (filter (\<lambda>t. tx_TransactionID t = Some c) (transactions d))"

function generate_loop ::
    "nat \<Rightarrow> (nat \<Rightarrow> gen_input) \<Rightarrow> Database \<Rightarrow> (error + go_int) \<times> Database" where
  "generate_loop attempts env d =
     (if attempts < 10 then
        (case exec_stmt d of
           (False, d1) \<Rightarrow> generate_loop (attempts + 1) env d1
         | (True, d1) \<Rightarrow>
             if count_transaction_id d1 (candidateID (env attempts)) = 0
             then (Inr (candidateID (env attempts)), d1)
             else generate_loop (attempts + 1) env d1)
      else (Inl IdentifierExhausted, d))"
  by pat_completeness auto
termination
  by (relation "measure (\<lambda>(attempts, env, d). 10 - attempts)") auto

declare generate_loop.simps [simp del]

definition GenerateTransactionID ::
    "(nat \<Rightarrow> gen_input) \<Rightarrow> Database \<Rightarrow> (error + go_int) \<times> Database" where
  "GenerateTransactionID env d = generate_loop 0 env d"

subsection \<open>Create\<close>

text \<open>The INSERT ... RETURNING statement with the table's constraints: the AUTOINCREMENT
  key, \<open>transaction_id UNIQUE\<close> and the foreign key on \<open>chargers(id)\<close>; \<open>now\<close> is
  CURRENT_TIMESTAMP.\<close>

definition insert_transaction ::
    "time \<Rightarrow> Database \<Rightarrow> go_int \<Rightarrow> CreateTransactionRequest \<Rightarrow> (error + Transaction) \<times> Database" where
  "insert_transaction now d ocppTxID req =
     (case exec_stmt d of
        (False, d1) \<Rightarrow> (Inl DriverError, d1)
      | (True, d1) \<Rightarrow>
          if seq_transactions d1 = 0x7FFFFFFFFFFFFFFF
             \<or> count_transaction_id d1 ocppTxID \<noteq> 0
             \<or> ctr_ChargerID req \<notin> set (map ch_ID (chargers d1))
          then (Inl DriverError, d1)
          else
            (let row = \<lparr> tx_ID = seq_transactions d1 + 1,
                         tx_TransactionID = Some ocppTxID,
                         tx_ChargerID = ctr_ChargerID req,
                         tx_ConnectorID = ctr_ConnectorID req,
                         tx_IDTag = ctr_IDTag req,
                         tx_StartTime = now,
                         tx_StopTime = None,
                         tx_MeterStart = ctr_MeterStart req,
                         tx_MeterStop = None,
                         tx_EnergyDelivered = 0,
                         tx_StopReason = '''',
                         tx_Status = ''Active'',
                         tx_CreatedAt = now,
                         tx_UpdatedAt = now \<rparr>
             in (Inr row, d1\<lparr>transactions := transactions d1 @ [row],
                              seq_transactions := seq_transactions d1 + 1\<rparr>)))"

definition Create ::
    "(nat \<Rightarrow> gen_input) \<Rightarrow> time \<Rightarrow> Database \<Rightarrow> CreateTransactionRequest
       \<Rightarrow> (error + Transaction) \<times> Database" where
  "Create env now d req =
     (case (case ctr_TransactionID req of
              Some i \<Rightarrow> (Inr i, d)
            | None \<Rightarrow> GenerateTransactionID env d) of
        (Inl e, d1) \<Rightarrow> (Inl (Wrapped ''failed to generate transaction ID'' e), d1)
      | (Inr ocppTxID, d1) \<Rightarrow>
          (case insert_transaction now d1 ocppTxID req of
             (Inl e, d2) \<Rightarrow> (Inl (Wrapped ''failed to create transaction'' e), d2)
           | (Inr tx, d2) \<Rightarrow> (Inr tx, d2)))"

subsection \<open>Update\<close>

text \<open>One element of \<open>setParts\<close> together with its argument.\<close>

datatype tx_set =
    Set_meter_stop go_int
  | Set_stop_time time
  | Set_energy_delivered go_int
  | Set_stop_reason string
  | Set_status string
  | Set_tx_updated_at_now

fun apply_tx_set :: "time \<Rightarrow> tx_set \<Rightarrow> Transaction \<Rightarrow> Transaction" where
  "apply_tx_set now (Set_meter_stop v) t = t\<lparr>tx_MeterStop := Some v\<rparr>"
| "apply_tx_set now (Set_stop_time v) t = t\<lparr>tx_StopTime := Some v\<rparr>"
| "apply_tx_set now (Set_energy_delivered v) t = t\<lparr>tx_EnergyDelivered := v\<rparr>"
| "apply_tx_set now (Set_stop_reason v) t = t\<lparr>tx_StopReason := v\<rparr>"
| "apply_tx_set now (Set_status v) t = t\<lparr>tx_Status := v\<rparr>"
| "apply_tx_set now Set_tx_updated_at_now t = t\<lparr>tx_UpdatedAt := now\<rparr>"

definition tx_setParts :: "UpdateTransactionRequest \<Rightarrow> tx_set list" where
  "tx_setParts req =
     (case utr_MeterStop req of Some v \<Rightarrow> [Set_meter_stop v] | None \<Rightarrow> [])
   @ (case utr_StopTime req of Some v \<Rightarrow> [Set_stop_time v] | None \<Rightarrow> [])
   @ (case utr_EnergyDelivered req of Some v \<Rightarrow> [Set_energy_delivered v] | None \<Rightarrow> [])
   @ (case utr_StopReason req of Some v \<Rightarrow> [Set_stop_reason v] | None \<Rightarrow> [])
   @ (case utr_Status req of Some v \<Rightarrow> [Set_status v] | None \<Rightarrow> [])"

text \<open>\<open>UPDATE transactions SET ... WHERE id = ? RETURNING ...\<close>: every row with the id is
  rewritten, and the first rewritten row is what Scan reads.\<close>

definition update_transactions ::
    "(Transaction \<Rightarrow> Transaction) \<Rightarrow> go_int \<Rightarrow> Transaction list \<Rightarrow> Transaction list" where
  "update_transactions f i rows = map (\<lambda>t. if tx_ID t = i then f t else t) rows"

definition Update ::
    "time \<Rightarrow> Database \<Rightarrow> go_int \<Rightarrow> UpdateTransactionRequest \<Rightarrow> (error + Transaction) \<times> Database" where
  "Update now d i req =
     (let setParts = tx_setParts req in
      if length setParts = 0 then GetByID d i
      else
        (let setParts' = setParts @ [Set_tx_updated_at_now] in
         case exec_stmt d of
           (False, d1) \<Rightarrow> (Inl (Wrapped ''failed to update transaction'' DriverError), d1)
         | (True, d1) \<Rightarrow>
             (let rows' = update_transactions (\<lambda>t. fold (apply_tx_set now) setParts' t) i
                            (transactions d1)
              in case find (\<lambda>t. tx_ID t = i) rows' of
                   None \<Rightarrow> (Inl (NotFound ''transaction''), d1)
                 | Some t \<Rightarrow> (Inr t, d1\<lparr>transactions := rows'\<rparr>))))"

subsection \<open>Stop\<close>

definition Stop ::
    "time \<Rightarrow> Database \<Rightarrow> go_int \<Rightarrow> go_int \<Rightarrow> time \<Rightarrow> string \<Rightarrow> (error + unit) \<times> Database" where
  "Stop now d i meterStop stopTime stopReason =
     (case exec_stmt d of
        (False, d1) \<Rightarrow> (Inl (Wrapped ''failed to get meter start'' DriverError), d1)
      | (True, d1) \<Rightarrow>
          (case find (\<lambda>t. tx_ID t = i) (transactions d1) of
             None \<Rightarrow> (Inl (Wrapped ''failed to get meter start'' ErrNoRows), d1)
           | Some t0 \<Rightarrow>
               (let meterStart = tx_MeterStart t0;
                    diff = meterStop - meterStart;
                    energyDelivered = (if diff <s 0 then 0 else diff)
                in case exec_stmt d1 of
                     (False, d2) \<Rightarrow> (Inl (Wrapped ''failed to stop transaction'' DriverError), d2)
                   | (True, d2) \<Rightarrow>
                       (let rows' = update_transactions
                               (\<lambda>t. t\<lparr>tx_MeterStop := Some meterStop,
                                      tx_StopTime := Some stopTime,
                                      tx_StopReason := stopReason,
                                      tx_EnergyDelivered := energyDelivered,
                                      tx_Status := ''Completed'',
                                      tx_UpdatedAt := now\<rparr>) i (transactions d2);
                            rowsAffected = length (filter (\<lambda>t. tx_ID t = i) (transactions d2))
                        in if rowsAffected = 0 then (Inl (NotFound ''transaction''), d2)
                           else (Inr (), d2\<lparr>transactions := rows'\<rparr>)))))"

subsection \<open>List\<close>

definition ValidateSortDirection :: "ListOptions \<Rightarrow> ListOptions" where
  "ValidateSortDirection opts =
     (if lo_SortDir opts \<noteq> ''ASC'' \<and> lo_SortDir opts \<noteq> ''DESC''
      then opts\<lparr>lo_SortDir := ''DESC''\<rparr> else opts)"

text \<open>A Go \<open>map[string]bool\<close> literal; indexing it with an absent key gives \<open>false\<close>.\<close>

definition go_map_index :: "(string \<times> bool) list \<Rightarrow> string \<Rightarrow> bool" where
  "go_map_index m k = (case map_of m k of Some b \<Rightarrow> b | None \<Rightarrow> False)"

definition transaction_validOrderFields :: "(string \<times> bool) list" where
  "transaction_validOrderFields =
     [(''id'', True), (''transaction_id'', True), (''charger_id'', True),
      (''connector_id'', True), (''id_tag'', True), (''start_time'', True),
      (''stop_time'', True), (''status'', True), (''created_at'', True),
      (''updated_at'', True)]"

text \<open>The text that \<open>fmt.Sprintf\<close> produces in List, runs of white space written as one
  blank. The statement is then sent with \<open>opts.Limit\<close> and \<open>opts.Offset\<close> as bound
  parameters; fetching the rows is the driver's work and is not part of this function.\<close>

definition order_by_query :: "string \<Rightarrow> string \<Rightarrow> string \<Rightarrow> string" where
  "order_by_query select_from orderBy sortDir =
     select_from @ '' ORDER BY '' @ orderBy @ '' '' @ sortDir @ '' LIMIT ? OFFSET ?''"

definition transaction_select :: string where
  "transaction_select =
     ''SELECT id, transaction_id, charger_id, connector_id, id_tag, start_time, stop_time, meter_start, meter_stop, energy_delivered, stop_reason, status, created_at, updated_at FROM transactions''"

definition List_opts :: "(string \<times> bool) list \<Rightarrow> ListOptions \<Rightarrow> ListOptions" where
  "List_opts validOrderFields opts0 =
     (let opts = ValidateSortDirection opts0 in
      if \<not> go_map_index validOrderFields (lo_OrderBy opts)
      then opts\<lparr>lo_OrderBy := ''created_at''\<rparr> else opts)"

definition List_query :: "ListOptions \<Rightarrow> string" where
  "List_query opts0 =
     (let opts = List_opts transaction_validOrderFields opts0
      in order_by_query transaction_select (lo_OrderBy opts) (lo_SortDir opts))"

section \<open>Charger repository (src/db/charger_repository.go)\<close>

definition charger_GetByID :: "Database \<Rightarrow> string \<Rightarrow> (error + Charger) \<times> Database" where
  "charger_GetByID d i =
     (case exec_stmt d of
        (False, d1) \<Rightarrow> (Inl (Wrapped ''failed to get charger'' DriverError), d1)
      | (True, d1) \<Rightarrow>
          (case find (\<lambda>c. ch_ID c = i) (chargers d1) of
             None \<Rightarrow> (Inl (NotFound ''charger''), d1)
           | Some c \<Rightarrow> (Inr c, d1)))"

datatype ch_set =
    Set_name string
  | Set_vendor string
  | Set_model string
  | Set_serial_number string
  | Set_firmware_version string
  | Set_iccid string
  | Set_imsi string
  | Set_ch_status string
  | Set_is_connected go_int
  | Set_ch_updated_at_now

fun apply_ch_set :: "time \<Rightarrow> ch_set \<Rightarrow> Charger \<Rightarrow> Charger" where
  "apply_ch_set now (Set_name v) c = c\<lparr>ch_Name := v\<rparr>"
| "apply_ch_set now (Set_vendor v) c = c\<lparr>ch_Vendor := v\<rparr>"
| "apply_ch_set now (Set_model v) c = c\<lparr>ch_Model := v\<rparr>"
| "apply_ch_set now (Set_serial_number v) c = c\<lparr>ch_SerialNumber := v\<rparr>"
| "apply_ch_set now (Set_firmware_version v) c = c\<lparr>ch_FirmwareVersion := v\<rparr>"
| "apply_ch_set now (Set_iccid v) c = c\<lparr>ch_ICCID := v\<rparr>"
| "apply_ch_set now (Set_imsi v) c = c\<lparr>ch_IMSI := v\<rparr>"
| "apply_ch_set now (Set_ch_status v) c = c\<lparr>ch_Status := v\<rparr>"
| "apply_ch_set now (Set_is_connected v) c = c\<lparr>ch_IsConnected := (v \<noteq> 0)\<rparr>"
| "apply_ch_set now Set_ch_updated_at_now c = c\<lparr>ch_UpdatedAt := now\<rparr>"

definition ch_setParts :: "UpdateChargerRequest \<Rightarrow> ch_set list" where
  "ch_setParts req =
     (case ucr_Name req of Some v \<Rightarrow> [Set_name v] | None \<Rightarrow> [])
   @ (case ucr_Vendor req of Some v \<Rightarrow> [Set_vendor v] | None \<Rightarrow> [])
   @ (case ucr_Model req of Some v \<Rightarrow> [Set_model v] | None \<Rightarrow> [])
   @ (case ucr_SerialNumber req of Some v \<Rightarrow> [Set_serial_number v] | None \<Rightarrow> [])
   @ (case ucr_FirmwareVersion req of Some v \<Rightarrow> [Set_firmware_version v] | None \<Rightarrow> [])
   @ (case ucr_ICCID req of Some v \<Rightarrow> [Set_iccid v] | None \<Rightarrow> [])
   @ (case ucr_IMSI req of Some v \<Rightarrow> [Set_imsi v] | None \<Rightarrow> [])
   @ (case ucr_Status req of Some v \<Rightarrow> [Set_ch_status v] | None \<Rightarrow> [])
   @ (case ucr_IsConnected req of
        Some b \<Rightarrow> [Set_is_connected (if b then 1 else 0)] | None \<Rightarrow> [])"

definition update_chargers ::
    "(Charger \<Rightarrow> Charger) \<Rightarrow> string \<Rightarrow> Charger list \<Rightarrow> Charger list" where
  "update_chargers f i rows = map (\<lambda>c. if ch_ID c = i then f c else c) rows"

definition charger_Update ::
    "time \<Rightarrow> Database \<Rightarrow> string \<Rightarrow> UpdateChargerRequest \<Rightarrow> (error + Charger) \<times> Database" where
  "charger_Update now d i req =
     (let setParts = ch_setParts req in
      if length setParts = 0 then charger_GetByID d i
      else
        (let setParts' = setParts @ [Set_ch_updated_at_now] in
         case exec_stmt d of
           (False, d1) \<Rightarrow> (Inl (Wrapped ''failed to update charger'' DriverError), d1)
         | (True, d1) \<Rightarrow>
             (let rows' = update_chargers (\<lambda>c. fold (apply_ch_set now) setParts' c) i
                            (chargers d1)
              in case find (\<lambda>c. ch_ID c = i) rows' of
                   None \<Rightarrow> (Inl (NotFound ''charger''), d1)
                 | Some c \<Rightarrow> (Inr c, d1\<lparr>chargers := rows'\<rparr>))))"

section \<open>Meter value and charger error repositories (src/db/other_repositories.go)\<close>

definition GetLatestByConnector ::
    "Database \<Rightarrow> string \<Rightarrow> go_int \<Rightarrow> (error + MeterValue option) \<times> Database" where
  "GetLatestByConnector d chargerID connectorID =
     (case exec_stmt d of
        (False, d1) \<Rightarrow> (Inl (Wrapped ''failed to get latest meter value'' DriverError), d1)
      | (True, d1) \<Rightarrow>
          (case latest_by (\<lambda>m. text_key (mv_Timestamp m))
                  (filter (\<lambda>m. mv_ChargerID m = chargerID \<and> mv_ConnectorID m = connectorID)
                     (meter_values d1)) of
             None \<Rightarrow> (Inr None, d1)
           | Some m \<Rightarrow> (Inr (Some m), d1)))"

definition Resolve :: "Database \<Rightarrow> go_int \<Rightarrow> time \<Rightarrow> (error + unit) \<times> Database" where
  "Resolve d i resolvedAt =
     (case exec_stmt d of
        (False, d1) \<Rightarrow> (Inl (Wrapped ''failed to resolve charger error'' DriverError), d1)
      | (True, d1) \<Rightarrow>
          (let rowsAffected = length (filter (\<lambda>e. ce_ID e = i) (charger_errors d1)) in
           if rowsAffected = 0 then (Inl (NotFound ''charger error''), d1)
           else (Inr (),
                 d1\<lparr>charger_errors :=
                      map (\<lambda>e. if ce_ID e = i then e\<lparr>ce_ResolvedAt := Some resolvedAt\<rparr> else e)
                        (charger_errors d1)\<rparr>)))"

definition resolvable :: "string \<Rightarrow> string \<Rightarrow> ChargerError \<Rightarrow> bool" where
  "resolvable chargerID errorCode e =
     (ce_ChargerID e = chargerID \<and> ce_ErrorCode e = errorCode \<and> ce_ResolvedAt e = None)"

definition ResolveByErrorCode ::
    "Database \<Rightarrow> string \<Rightarrow> string \<Rightarrow> time \<Rightarrow> (error + go_int) \<times> Database" where
  "ResolveByErrorCode d chargerID errorCode resolvedAt =
     (case exec_stmt d of
        (False, d1) \<Rightarrow>
          (Inl (Wrapped ''failed to resolve charger errors by error code'' DriverError), d1)
      | (True, d1) \<Rightarrow>
          (let rowsAffected =
                 length (filter (resolvable chargerID errorCode) (charger_errors d1)) in
           (Inr (of_nat rowsAffected),
            d1\<lparr>charger_errors :=
                 map (\<lambda>e. if resolvable chargerID errorCode e
                           then e\<lparr>ce_ResolvedAt := Some resolvedAt\<rparr> else e)
                   (charger_errors d1)\<rparr>)))"

section \<open>Schema migrations (src/db/database.go)\<close>

subsection \<open>The migration library as the code uses it\<close>

text \<open>
  Modelled from the spec: the migration library \<open>github.com/golang-migrate/migrate/v4\<close>
  and its sqlite3 driver, which the functions of database.go call, are not among the
  sources. What follows is section 4.1 of the specification and the library's documented
  behaviour for the calls the repository makes (\<open>sqlite3.WithInstance\<close>,
  \<open>migrate.NewWithDatabaseInstance\<close>, Version, Force, Up, Down, Migrate, Close).

  \<open>schema_state\<close> is what a \<open>Database\<close> value holds for the migrations: the
  stored schema state, a version (\<open>-1\<close> is the library's NilVersion: nothing applied)
  with the dirty marker, and whether the connection handle \<open>d.db\<close> has been closed.
  \<open>migration_env\<close> is what lies outside it: the migration source lists its versions
  in ascending order; \<open>up_fails v\<close> and \<open>down_fails v\<close> say whether the script of
  version \<open>v\<close> fails when run; \<open>source_fails\<close> says that the source
  \<open>file://sql/migrations\<close> cannot be opened; \<open>driver_fails\<close> says that the driver
  cannot reach the database or create its version table.

  \<open>WithInstance\<close> pings the handle, so it fails on a closed one. \<open>Close\<close> closes the
  source and the database driver, and the sqlite3 driver closes the handle it was given.
  A script is run between two writes of the state: first the target version with the
  dirty marker set, afterwards the same version with the marker cleared, so a failing
  script leaves the marker set; the target of the down script of the lowest migration is
  NilVersion, which is stored with the marker as any other version is. \<open>Version\<close> reports
  NilVersion as the error \<open>ErrNilVersion\<close>, with version 0 and no dirty marker. Failures
  of the driver while it reads or writes the state itself are left out.
\<close>

record schema_state =
  sv_version :: int
  sv_dirty :: bool
  sv_closed :: bool

record migration_env =
  src_versions :: "nat list"
  up_fails :: "nat \<Rightarrow> bool"
  down_fails :: "nat \<Rightarrow> bool"
  source_fails :: bool
  driver_fails :: bool

definition WithInstance :: "migration_env \<Rightarrow> schema_state \<Rightarrow> error + unit" where
  "WithInstance menv s =
     (if sv_closed s then Inl ErrDatabaseClosed
      else if driver_fails menv then Inl DriverError
      else Inr ())"

definition NewWithDatabaseInstance :: "migration_env \<Rightarrow> error + unit" where
  "NewWithDatabaseInstance menv =
     (if source_fails menv then Inl SourceError else Inr ())"

definition m_Close :: "schema_state \<Rightarrow> schema_state" where
  "m_Close s = s\<lparr>sv_closed := True\<rparr>"

definition m_Version :: "schema_state \<Rightarrow> error + (nat \<times> bool)" where
  "m_Version s =
     (if sv_version s = -1 then Inl ErrNilVersion
      else Inr (nat (sv_version s), sv_dirty s))"

definition m_Force :: "int \<Rightarrow> schema_state \<Rightarrow> (error + unit) \<times> schema_state" where
  "m_Force v s =
     (if v < -1 then (Inl ErrInvalidVersion, s)
      else (Inr (), s\<lparr>sv_version := v, sv_dirty := False\<rparr>))"

fun run_up :: "migration_env \<Rightarrow> nat list \<Rightarrow> schema_state \<Rightarrow> (error + unit) \<times> schema_state" where
  "run_up menv [] s = (Inr (), s)"
| "run_up menv (v # vs) s =
     (if up_fails menv v then (Inl (ScriptFailed v), s\<lparr>sv_version := int v, sv_dirty := True\<rparr>)
      else run_up menv vs (s\<lparr>sv_version := int v, sv_dirty := False\<rparr>))"

text \<open>A down script of version \<open>v\<close> has the version below it as its target; the pairs
  are (version, target), highest version first, the last target being \<open>floor\<close>.\<close>

definition down_plan :: "nat list \<Rightarrow> int \<Rightarrow> (nat \<times> int) list" where
  "down_plan desc floor = zip desc (map int (tl desc) @ [floor])"

fun run_down ::
    "migration_env \<Rightarrow> (nat \<times> int) list \<Rightarrow> schema_state \<Rightarrow> (error + unit) \<times> schema_state" where
  "run_down menv [] s = (Inr (), s)"
| "run_down menv ((v, target) # ps) s =
     (if down_fails menv v
      then (Inl (ScriptFailed v), s\<lparr>sv_version := target, sv_dirty := True\<rparr>)
      else run_down menv ps (s\<lparr>sv_version := target, sv_dirty := False\<rparr>))"

definition version_missing :: "migration_env \<Rightarrow> int \<Rightarrow> bool" where
  "version_missing menv v = (0 \<le> v \<and> nat v \<notin> set (src_versions menv))"

definition m_Up :: "migration_env \<Rightarrow> schema_state \<Rightarrow> (error + unit) \<times> schema_state" where
  "m_Up menv s =
     (if sv_dirty s then (Inl (ErrDirty (sv_version s)), s)
      else if version_missing menv (sv_version s) then (Inl ErrNotExist, s)
      else
        (case filter (\<lambda>v. sv_version s < int v) (src_versions menv) of
           [] \<Rightarrow> (Inl ErrNoChange, s)
         | vs \<Rightarrow> run_up menv vs s))"

definition m_Down :: "migration_env \<Rightarrow> schema_state \<Rightarrow> (error + unit) \<times> schema_state" where
  "m_Down menv s =
     (if sv_dirty s then (Inl (ErrDirty (sv_version s)), s)
      else if sv_version s = -1 then (Inl ErrNoChange, s)
      else if version_missing menv (sv_version s) then (Inl ErrNotExist, s)
      else run_down menv
             (down_plan (rev (filter (\<lambda>v. int v \<le> sv_version s) (src_versions menv))) (-1)) s)"

definition m_Migrate ::
    "migration_env \<Rightarrow> nat \<Rightarrow> schema_state \<Rightarrow> (error + unit) \<times> schema_state" where
  "m_Migrate menv t s =
     (if sv_dirty s then (Inl (ErrDirty (sv_version s)), s)
      else if version_missing menv (sv_version s) \<or> version_missing menv (int t)
      then (Inl ErrNotExist, s)
      else if sv_version s = int t then (Inl ErrNoChange, s)
      else if sv_version s < int t
      then run_up menv (filter (\<lambda>v. sv_version s < int v \<and> v \<le> t) (src_versions menv)) s
      else run_down menv
             (down_plan (rev (filter (\<lambda>v. t < v \<and> int v \<le> sv_version s) (src_versions menv)))
                (int t)) s)"

subsection \<open>The repository's migration functions\<close>

record MigrationResult =
  mr_FromVersion :: nat
  mr_ToVersion :: nat
  mr_Applied :: bool
  mr_Error :: "error option"

text \<open>
  Each of the four functions first creates the driver and the migrate instance, returning
  at once when either fails, and defers \<open>m.Close()\<close>: once the instance exists, the
  handle is closed on every return, so the state left behind has \<open>sv_closed\<close> set.

  The result of \<open>RunMigrationsWithCallback\<close> is the returned error, the argument the
  callback is called with (if it is called), and the state left behind. The variable
  \<open>err\<close> of the source is assigned by \<open>m.Up()\<close> and then again by the second
  \<open>m.Version()\<close>, before \<open>Applied\<close> is computed from it.
\<close>

definition RunMigrationsWithCallback ::
    "migration_env \<Rightarrow> schema_state
       \<Rightarrow> (error + unit) \<times> MigrationResult option \<times> schema_state" where
  "RunMigrationsWithCallback menv s =
     (case WithInstance menv s of
        Inl e \<Rightarrow> (Inl (Wrapped ''failed to create sqlite3 driver'' e), None, s)
      | Inr driver \<Rightarrow>
     (case NewWithDatabaseInstance menv of
        Inl e \<Rightarrow> (Inl (Wrapped ''failed to create migrate instance'' e), None, s)
      | Inr m \<Rightarrow>
     (let (currentVersion, dirty, err) =
            (case m_Version s of
               Inl e \<Rightarrow> (0, False, Some e)
             | Inr (v, d) \<Rightarrow> (v, d, None))
      in if err \<noteq> None \<and> err \<noteq> Some ErrNilVersion
         then (Inl (Wrapped ''failed to get current migration version'' (the err)), None,
               m_Close s)
         else
           (case (if dirty then m_Force (int currentVersion) s else (Inr (), s)) of
              (Inl e, s1) \<Rightarrow>
                (Inl (Wrapped ''failed to force clean migration state'' e), None, m_Close s1)
            | (Inr u, s1) \<Rightarrow>
                (let currentVersion = (if err = Some ErrNilVersion then 0 else currentVersion);
                     (r, s2) = m_Up menv s1;
                     err = (case r of Inl e \<Rightarrow> Some e | Inr u \<Rightarrow> None)
                 in if err \<noteq> None \<and> err \<noteq> Some ErrNoChange
                    then (Inl (Wrapped ''failed to run migrations'' (the err)),
                          Some \<lparr>mr_FromVersion = currentVersion, mr_ToVersion = currentVersion,
                                mr_Applied = False, mr_Error = err\<rparr>, m_Close s2)
                    else
                      (let (finalVersion, err) =
                             (case m_Version s2 of
                                Inl e \<Rightarrow> (0, Some e)
                              | Inr (v, d) \<Rightarrow> (v, None))
                       in if err \<noteq> None \<and> err \<noteq> Some ErrNilVersion
                          then (Inl (Wrapped ''failed to get final migration version'' (the err)),
                                None, m_Close s2)
                          else
                            (let finalVersion =
                                   (if err = Some ErrNilVersion then 0 else finalVersion)
                             in (Inr (),
                                 Some \<lparr>mr_FromVersion = currentVersion,
                                       mr_ToVersion = finalVersion,
                                       mr_Applied = (err \<noteq> Some ErrNoChange),
                                       mr_Error = None\<rparr>, m_Close s2))))))))"

text \<open>\<open>steps\<close> is a Go \<open>int\<close>; for \<open>steps \<ge> 0\<close> the subtraction
  \<open>int(currentVersion) - steps\<close> cannot overflow, so it is taken over the integers.
  The test for \<open>ErrNilVersion\<close> comes before the test of the dirty marker.\<close>

definition MigrateDown ::
    "migration_env \<Rightarrow> schema_state \<Rightarrow> int \<Rightarrow> (error + unit) \<times> schema_state" where
  "MigrateDown menv s steps =
     (case WithInstance menv s of
        Inl e \<Rightarrow> (Inl (Wrapped ''failed to create sqlite3 driver'' e), s)
      | Inr driver \<Rightarrow>
     (case NewWithDatabaseInstance menv of
        Inl e \<Rightarrow> (Inl (Wrapped ''failed to create migrate instance'' e), s)
      | Inr m \<Rightarrow>
     (case m_Version s of
        Inl e \<Rightarrow>
          if e = ErrNilVersion then (Inr (), m_Close s)
          else (Inl (Wrapped ''failed to get current migration version'' e), m_Close s)
      | Inr (currentVersion, dirty) \<Rightarrow>
          if dirty then (Inl DirtyState, m_Close s)
          else
            (let targetVersion = int currentVersion - steps;
                 targetVersion = (if targetVersion < 0 then 0 else targetVersion);
                 (r, s1) = (if targetVersion = 0 then m_Down menv s
                            else m_Migrate menv (nat targetVersion) s)
             in case r of
                  Inl e \<Rightarrow>
                    if e \<noteq> ErrNoChange
                    then (Inl (Wrapped ''failed to rollback migrations'' e), m_Close s1)
                    else (Inr (), m_Close s1)
                | Inr u \<Rightarrow> (Inr (), m_Close s1)))))"

definition GetMigrationVersion ::
    "migration_env \<Rightarrow> schema_state \<Rightarrow> (error + (nat \<times> bool)) \<times> schema_state" where
  "GetMigrationVersion menv s =
     (case WithInstance menv s of
        Inl e \<Rightarrow> (Inl (Wrapped ''failed to create sqlite3 driver'' e), s)
      | Inr driver \<Rightarrow>
     (case NewWithDatabaseInstance menv of
        Inl e \<Rightarrow> (Inl (Wrapped ''failed to create migrate instance'' e), s)
      | Inr m \<Rightarrow>
     (case m_Version s of
        Inl e \<Rightarrow>
          if e = ErrNilVersion then (Inr (0, False), m_Close s)
          else (Inl (Wrapped ''failed to get migration version'' e), m_Close s)
      | Inr (version, dirty) \<Rightarrow> (Inr (version, dirty), m_Close s))))"

definition ForceMigrationVersion ::
    "migration_env \<Rightarrow> schema_state \<Rightarrow> int \<Rightarrow> (error + unit) \<times> schema_state" where
  "ForceMigrationVersion menv s version =
     (case WithInstance menv s of
        Inl e \<Rightarrow> (Inl (Wrapped ''failed to create sqlite3 driver'' e), s)
      | Inr driver \<Rightarrow>
     (case NewWithDatabaseInstance menv of
        Inl e \<Rightarrow> (Inl (Wrapped ''failed to create migrate instance'' e), s)
      | Inr m \<Rightarrow>
     (case m_Force version s of
        (Inl e, s1) \<Rightarrow> (Inl (Wrapped ''failed to force migration version'' e), m_Close s1)
      | (Inr u, s1) \<Rightarrow> (Inr (), m_Close s1))))"

section \<open>Notions used to state the properties\<close>

text \<open>The value a partial update leaves in a column: the supplied one, or the old one
  when the request leaves the field unset.\<close>

definition supplied :: "'a option \<Rightarrow> 'a \<Rightarrow> 'a" where
  "supplied x old = (case x of Some v \<Rightarrow> v | None \<Rightarrow> old)"

text \<open>The rows of the meter value table for one connector.\<close>

definition on_connector :: "string \<Rightarrow> go_int \<Rightarrow> MeterValue \<Rightarrow> bool" where
  "on_connector chargerID connectorID m =
     (mv_ChargerID m = chargerID \<and> mv_ConnectorID m = connectorID)"

text \<open>What the specification says a partial update writes: the supplied fields and the
  last-modified time, every other column as it was.\<close>

definition spec_transaction_update ::
    "time \<Rightarrow> UpdateTransactionRequest \<Rightarrow> Transaction \<Rightarrow> Transaction" where
  "spec_transaction_update now req t =
     t\<lparr> tx_MeterStop := supplied (map_option Some (utr_MeterStop req)) (tx_MeterStop t),
        tx_StopTime := supplied (map_option Some (utr_StopTime req)) (tx_StopTime t),
        tx_EnergyDelivered := supplied (utr_EnergyDelivered req) (tx_EnergyDelivered t),
        tx_StopReason := supplied (utr_StopReason req) (tx_StopReason t),
        tx_Status := supplied (utr_Status req) (tx_Status t),
        tx_UpdatedAt := now \<rparr>"

definition spec_charger_update ::
    "time \<Rightarrow> UpdateChargerRequest \<Rightarrow> Charger \<Rightarrow> Charger" where
  "spec_charger_update now req c =
     c\<lparr> ch_Name := supplied (ucr_Name req) (ch_Name c),
        ch_Vendor := supplied (ucr_Vendor req) (ch_Vendor c),
        ch_Model := supplied (ucr_Model req) (ch_Model c),
        ch_SerialNumber := supplied (ucr_SerialNumber req) (ch_SerialNumber c),
        ch_FirmwareVersion := supplied (ucr_FirmwareVersion req) (ch_FirmwareVersion c),
        ch_ICCID := supplied (ucr_ICCID req) (ch_ICCID c),
        ch_IMSI := supplied (ucr_IMSI req) (ch_IMSI c),
        ch_Status := supplied (ucr_Status req) (ch_Status c),
        ch_IsConnected := supplied (ucr_IsConnected req) (ch_IsConnected c),
        ch_UpdatedAt := now \<rparr>"

definition no_transaction_field_set :: "UpdateTransactionRequest \<Rightarrow> bool" where
  "no_transaction_field_set req =
     (utr_MeterStop req = None \<and> utr_StopTime req = None \<and> utr_EnergyDelivered req = None
      \<and> utr_StopReason req = None \<and> utr_Status req = None)"

definition no_charger_field_set :: "UpdateChargerRequest \<Rightarrow> bool" where
  "no_charger_field_set req =
     (ucr_Name req = None \<and> ucr_Vendor req = None \<and> ucr_Model req = None
      \<and> ucr_SerialNumber req = None \<and> ucr_FirmwareVersion req = None \<and> ucr_ICCID req = None
      \<and> ucr_IMSI req = None \<and> ucr_Status req = None \<and> ucr_IsConnected req = None)"

section \<open>Concrete stores and inputs\<close>

definition example_charger :: Charger where
  "example_charger =
     \<lparr> ch_ID = ''CP1'', ch_Name = ''Charger 1'', ch_Vendor = ''V'', ch_Model = ''M'',
       ch_SerialNumber = ''S'', ch_FirmwareVersion = ''1.0'', ch_ICCID = [], ch_IMSI = [],
       ch_Status = ''Available'', ch_IsConnected = True, ch_LastHeartbeatAt = None,
       ch_LastBootAt = None, ch_LastConnectAt = Some 90, ch_LastTxStartAt = None,
       ch_LastTxStopAt = None, ch_CreatedAt = 90, ch_UpdatedAt = 90 \<rparr>"

definition example_tx :: Transaction where
  "example_tx =
     \<lparr> tx_ID = 1, tx_TransactionID = Some 1000, tx_ChargerID = ''CP1'', tx_ConnectorID = 1,
       tx_IDTag = ''abc'', tx_StartTime = 100, tx_StopTime = None, tx_MeterStart = 1000,
       tx_MeterStop = None, tx_EnergyDelivered = 0, tx_StopReason = [],
       tx_Status = ''Active'', tx_CreatedAt = 100, tx_UpdatedAt = 100 \<rparr>"

definition example_db :: Database where
  "example_db =
     \<lparr> chargers = [example_charger], transactions = [example_tx], meter_values = [],
       charger_errors = [], seq_transactions = 1, faults = [] \<rparr>"

definition keep_all_tx :: UpdateTransactionRequest where
  "keep_all_tx =
     \<lparr> utr_MeterStop = None, utr_StopTime = None, utr_EnergyDelivered = None,
       utr_StopReason = None, utr_Status = None \<rparr>"

definition abort_tx :: UpdateTransactionRequest where
  "abort_tx =
     \<lparr> utr_MeterStop = None, utr_StopTime = None, utr_EnergyDelivered = None,
       utr_StopReason = None, utr_Status = Some ''Aborted'' \<rparr>"

definition keep_all_charger :: UpdateChargerRequest where
  "keep_all_charger =
     \<lparr> ucr_Name = None, ucr_Vendor = None, ucr_Model = None, ucr_SerialNumber = None,
       ucr_FirmwareVersion = None, ucr_ICCID = None, ucr_IMSI = None, ucr_Status = None,
       ucr_IsConnected = None \<rparr>"

definition rename_charger :: UpdateChargerRequest where
  "rename_charger =
     \<lparr> ucr_Name = Some ''Garage'', ucr_Vendor = None, ucr_Model = None,
       ucr_SerialNumber = None, ucr_FirmwareVersion = None, ucr_ICCID = None,
       ucr_IMSI = None, ucr_Status = None, ucr_IsConnected = None \<rparr>"

definition injection_opts :: ListOptions where
  "injection_opts =
     \<lparr> lo_Limit = 50, lo_Offset = 0,
       lo_OrderBy = ''id; DROP TABLE transactions'', lo_SortDir = ''asc'' \<rparr>"

definition resolved_error :: ChargerError where
  "resolved_error =
     \<lparr> ce_ID = 1, ce_ChargerID = ''CP1'', ce_ConnectorID = Some 1,
       ce_ErrorCode = ''GroundFailure'', ce_VendorErrorCode = [], ce_ErrorDescription = [],
       ce_VendorErrorInfo = [], ce_Timestamp = 5, ce_ResolvedAt = Some 10,
       ce_CreatedAt = 5 \<rparr>"

definition resolved_db :: Database where
  "resolved_db =
     \<lparr> chargers = [example_charger], transactions = [], meter_values = [],
       charger_errors = [resolved_error], seq_transactions = 0, faults = [] \<rparr>"

text \<open>Two sources of candidates at Unix time 1: the random component counts 0, 1, 2, ...
  from pass to pass, or stays 0 in every pass.\<close>

definition counting_env :: "nat \<Rightarrow> gen_input" where
  "counting_env k = \<lparr> gi_now = 1, gi_random = of_nat k, gi_now2 = 1 \<rparr>"

definition stuck_env :: "nat \<Rightarrow> gen_input" where
  "stuck_env k = \<lparr> gi_now = 1, gi_random = 0, gi_now2 = 1 \<rparr>"

definition idle_db :: Database where
  "idle_db =
     \<lparr> chargers = [example_charger], transactions = [], meter_values = [],
       charger_errors = [], seq_transactions = 0, faults = [] \<rparr>"

definition start_req :: CreateTransactionRequest where
  "start_req =
     \<lparr> ctr_TransactionID = None, ctr_ChargerID = ''CP1'', ctr_ConnectorID = 1,
       ctr_IDTag = ''xyz'', ctr_MeterStart = 2000 \<rparr>"

definition first_tx :: Transaction where
  "first_tx =
     \<lparr> tx_ID = 1, tx_TransactionID = Some 1000, tx_ChargerID = ''CP1'', tx_ConnectorID = 1,
       tx_IDTag = ''xyz'', tx_StartTime = 100, tx_StopTime = None, tx_MeterStart = 2000,
       tx_MeterStop = None, tx_EnergyDelivered = 0, tx_StopReason = [],
       tx_Status = ''Active'', tx_CreatedAt = 100, tx_UpdatedAt = 100 \<rparr>"

definition second_tx :: Transaction where
  "second_tx =
     \<lparr> tx_ID = 2, tx_TransactionID = Some 1001, tx_ChargerID = ''CP1'', tx_ConnectorID = 1,
       tx_IDTag = ''xyz'', tx_StartTime = 200, tx_StopTime = None, tx_MeterStart = 2000,
       tx_MeterStop = None, tx_EnergyDelivered = 0, tx_StopReason = [],
       tx_Status = ''Active'', tx_CreatedAt = 200, tx_UpdatedAt = 200 \<rparr>"

text \<open>Two meter values of connector (CP1, 1): the first was taken at 09:00 UTC, the
  second an hour earlier, at 10:00 in a zone two hours east of UTC (times of day in
  nanoseconds, offsets in minutes).\<close>

definition reading_utc :: MeterValue where
  "reading_utc =
     \<lparr> mv_ID = 1, mv_TransactionID = Some 1, mv_ChargerID = ''CP1'', mv_ConnectorID = 1,
       mv_Timestamp = \<lparr> zt_wall = 32400000000000, zt_offset = 0 \<rparr>,
       mv_Measurand = ''Energy.Active.Import.Register'', mv_Value = 0, mv_Unit = ''Wh'',
       mv_Context = [], mv_Location = [], mv_Phase = [], mv_Format = [],
       mv_CreatedAt = 100 \<rparr>"

definition reading_east :: MeterValue where
  "reading_east =
     \<lparr> mv_ID = 2, mv_TransactionID = Some 1, mv_ChargerID = ''CP1'', mv_ConnectorID = 1,
       mv_Timestamp = \<lparr> zt_wall = 36000000000000, zt_offset = 120 \<rparr>,
       mv_Measurand = ''Energy.Active.Import.Register'', mv_Value = 0, mv_Unit = ''Wh'',
       mv_Context = [], mv_Location = [], mv_Phase = [], mv_Format = [],
       mv_CreatedAt = 101 \<rparr>"

definition metered_db :: Database where
  "metered_db =
     \<lparr> chargers = [example_charger], transactions = [example_tx],
       meter_values = [reading_utc, reading_east],
       charger_errors = [], seq_transactions = 1, faults = [] \<rparr>"

text \<open>A later process opens the same database file with a new handle: the stored
  schema state is as it was left, and the handle is open.\<close>

definition new_handle :: "schema_state \<Rightarrow> schema_state" where
  "new_handle s = s\<lparr>sv_closed := False\<rparr>"

text \<open>Migration sources whose scripts all succeed, one whose only down script fails, and
  schema states behind an open handle.\<close>

definition one_migration :: migration_env where
  "one_migration =
     \<lparr> src_versions = [1], up_fails = (\<lambda>v. False), down_fails = (\<lambda>v. False),
       source_fails = False, driver_fails = False \<rparr>"

definition three_migrations :: migration_env where
  "three_migrations =
     \<lparr> src_versions = [1, 2, 3], up_fails = (\<lambda>v. False), down_fails = (\<lambda>v. False),
       source_fails = False, driver_fails = False \<rparr>"

definition failing_down :: migration_env where
  "failing_down =
     \<lparr> src_versions = [1], up_fails = (\<lambda>v. False), down_fails = (\<lambda>v. True),
       source_fails = False, driver_fails = False \<rparr>"

definition dirty_state :: schema_state where
  "dirty_state = \<lparr> sv_version = 1, sv_dirty = True, sv_closed = False \<rparr>"

definition at_version_1 :: schema_state where
  "at_version_1 = \<lparr> sv_version = 1, sv_dirty = False, sv_closed = False \<rparr>"

definition at_version_3 :: schema_state where
  "at_version_3 = \<lparr> sv_version = 3, sv_dirty = False, sv_closed = False \<rparr>"

definition dirty_nil_state :: schema_state where
  "dirty_nil_state = \<lparr> sv_version = -1, sv_dirty = True, sv_closed = False \<rparr>"

section \<open>Facts about the store\<close>

lemma exec_stmt_split:
  obtains d1 where "exec_stmt d = (\<not> fault_at d 0, d1)"
    and "chargers d1 = chargers d" and "transactions d1 = transactions d"
    and "meter_values d1 = meter_values d" and "charger_errors d1 = charger_errors d"
    and "seq_transactions d1 = seq_transactions d"
    and "\<And>k. fault_at d1 k = fault_at d (Suc k)"
  by (cases "faults d") (auto simp: exec_stmt_def fault_at_def)

lemma sint_sub_in_range:
  fixes a b :: "64 word"
  assumes "- (2 ^ 63) \<le> sint a - sint b" and "sint a - sint b < 2 ^ 63"
  shows "sint (a - b) = sint a - sint b"
  using assms by (simp add: sint_word_ariths signed_take_bit_int_eq_self)

lemma find_update_transactions:
  "find (\<lambda>t. tx_ID t = i) rows = Some t0 \<Longrightarrow> tx_ID (f t0) = i \<Longrightarrow>
   find (\<lambda>t. tx_ID t = i) (update_transactions f i rows) = Some (f t0)"
  by (induction rows) (auto simp: update_transactions_def)

lemma find_Some_filter_nonempty:
  "find P rows = Some t0 \<Longrightarrow> filter P rows \<noteq> []"
  by (induction rows) (auto split: if_splits)

lemma find_Some_holds: "find P rows = Some t0 \<Longrightarrow> P t0"
  by (induction rows) (auto split: if_splits)

section \<open>Stop\<close>

text \<open>
  C3, as the code has it. When the two statements of Stop reach the store and a row with
  the internal id exists, Stop succeeds and that row keeps all its other columns and gets
  meter_stop = meterStop, stop_time = stopTime, stop_reason = stopReason, status =
  'Completed', the last-modified time, and a delivered energy that is never negative. The
  delivered energy equals max(0, meterStop - meterStart) whenever that difference fits a
  64-bit signed integer, and so for all non-negative meter readings.
\<close>

theorem Stop_completes:
  assumes ok: "\<not> fault_at d 0" "\<not> fault_at d 1"
      and row: "find (\<lambda>t. tx_ID t = i) (transactions d) = Some t0"
  shows "\<exists>e. fst (Stop now d i meterStop stopTime stopReason) = Inr ()
      \<and> find (\<lambda>t. tx_ID t = i) (transactions (snd (Stop now d i meterStop stopTime stopReason)))
          = Some (t0\<lparr>tx_MeterStop := Some meterStop, tx_StopTime := Some stopTime,
                     tx_StopReason := stopReason, tx_EnergyDelivered := e,
                     tx_Status := ''Completed'', tx_UpdatedAt := now\<rparr>)
      \<and> 0 \<le> sint e
      \<and> (- (2 ^ 63) \<le> sint meterStop - sint (tx_MeterStart t0)
           \<and> sint meterStop - sint (tx_MeterStart t0) < 2 ^ 63
          \<longrightarrow> sint e = max 0 (sint meterStop - sint (tx_MeterStart t0)))
      \<and> (0 \<le> sint meterStop \<and> 0 \<le> sint (tx_MeterStart t0)
          \<longrightarrow> sint e = max 0 (sint meterStop - sint (tx_MeterStart t0)))"
proof -
  obtain d1 where d1: "exec_stmt d = (\<not> fault_at d 0, d1)" "transactions d1 = transactions d"
      "\<And>k. fault_at d1 k = fault_at d (Suc k)"
    by (rule exec_stmt_split[of d]) blast
  obtain d2 where d2: "exec_stmt d1 = (\<not> fault_at d1 0, d2)" "transactions d2 = transactions d1"
    by (rule exec_stmt_split[of d1]) blast
  define diff where "diff = meterStop - tx_MeterStart t0"
  define e where "e = (if diff <s 0 then 0 else diff)"
  define f where "f = (\<lambda>t::Transaction. t\<lparr>tx_MeterStop := Some meterStop,
                     tx_StopTime := Some stopTime,
                     tx_StopReason := stopReason, tx_EnergyDelivered := e,
                     tx_Status := ''Completed'', tx_UpdatedAt := now\<rparr>)"
  have id0: "tx_ID t0 = i"
    using row by (rule find_Some_holds)
  have ne: "filter (\<lambda>t. tx_ID t = i) (transactions d) \<noteq> []"
    using row by (rule find_Some_filter_nonempty)
  have st: "Stop now d i meterStop stopTime stopReason
            = (Inr (), d2\<lparr>transactions := update_transactions f i (transactions d)\<rparr>)"
    using ok row ne d1 d2 by (simp add: Stop_def Let_def diff_def e_def f_def)
  have fd: "find (\<lambda>t. tx_ID t = i) (update_transactions f i (transactions d)) = Some (f t0)"
    using row by (rule find_update_transactions) (simp add: f_def id0)
  have nonneg: "0 \<le> sint e"
    by (simp add: e_def word_sless_alt)
  have exact: "sint e = max 0 (sint meterStop - sint (tx_MeterStart t0))"
    if "- (2 ^ 63) \<le> sint meterStop - sint (tx_MeterStart t0)"
       "sint meterStop - sint (tx_MeterStart t0) < 2 ^ 63"
    using sint_sub_in_range[OF that] by (simp add: e_def diff_def word_sless_alt)
  have readings: "sint e = max 0 (sint meterStop - sint (tx_MeterStart t0))"
    if "0 \<le> sint meterStop" "0 \<le> sint (tx_MeterStart t0)"
  proof -
    have "sint meterStop < 2 ^ 63" "sint (tx_MeterStart t0) < 2 ^ 63"
      using sint_lt[of meterStop] sint_lt[of "tx_MeterStart t0"] by simp_all
    with that have "- (2 ^ 63) \<le> sint meterStop - sint (tx_MeterStart t0)"
        "sint meterStop - sint (tx_MeterStart t0) < 2 ^ 63"
      by linarith+
    then show ?thesis by (rule exact)
  qed
  show ?thesis
    using st fd nonneg exact readings by (intro exI[of _ e]) (simp add: f_def)
qed

theorem Stop_completes_witness:
  "\<not> fault_at example_db 0 \<and> \<not> fault_at example_db 1
   \<and> find (\<lambda>t. tx_ID t = 1) (transactions example_db) = Some example_tx
   \<and> 0 \<le> sint (1500 :: go_int) \<and> 0 \<le> sint (tx_MeterStart example_tx)
   \<and> - (2 ^ 63) \<le> sint (1500 :: go_int) - sint (tx_MeterStart example_tx)
   \<and> sint (1500 :: go_int) - sint (tx_MeterStart example_tx) < 2 ^ 63
   \<and> fst (Stop 200 example_db 1 1500 150 ''Local'') = Inr ()
   \<and> find (\<lambda>t. tx_ID t = 1) (transactions (snd (Stop 200 example_db 1 1500 150 ''Local'')))
       = Some (example_tx\<lparr>tx_MeterStop := Some 1500, tx_StopTime := Some 150,
                          tx_StopReason := ''Local'', tx_EnergyDelivered := 500,
                          tx_Status := ''Completed'', tx_UpdatedAt := 200\<rparr>)"
proof -
  have h1: "\<not> fault_at example_db 0" and h2: "\<not> fault_at example_db 1"
    by (simp_all add: fault_at_def example_db_def)
  have h3: "find (\<lambda>t. tx_ID t = 1) (transactions example_db) = Some example_tx"
    by (simp add: example_db_def example_tx_def)
  have ms: "tx_MeterStart example_tx = 1000"
    by (simp add: example_tx_def)
  obtain e where e: "fst (Stop 200 example_db 1 1500 150 ''Local'') = Inr ()"
      "find (\<lambda>t. tx_ID t = 1) (transactions (snd (Stop 200 example_db 1 1500 150 ''Local'')))
        = Some (example_tx\<lparr>tx_MeterStop := Some 1500, tx_StopTime := Some 150,
                           tx_StopReason := ''Local'', tx_EnergyDelivered := e,
                           tx_Status := ''Completed'', tx_UpdatedAt := 200\<rparr>)"
      "- (2 ^ 63) \<le> sint (1500 :: go_int) - sint (tx_MeterStart example_tx)
         \<and> sint (1500 :: go_int) - sint (tx_MeterStart example_tx) < 2 ^ 63
       \<longrightarrow> sint e = max 0 (sint (1500 :: go_int) - sint (tx_MeterStart example_tx))"
    using Stop_completes[OF h1 h2 h3, of 200 1500 150 "''Local''"] by blast
  have rng: "0 \<le> sint (1500 :: go_int)" "0 \<le> sint (tx_MeterStart example_tx)"
      "- (2 ^ 63) \<le> sint (1500 :: go_int) - sint (tx_MeterStart example_tx)"
      "sint (1500 :: go_int) - sint (tx_MeterStart example_tx) < 2 ^ 63"
    by (simp_all add: ms)
  have "sint e = sint (500 :: go_int)"
    using e(3) rng(3,4) by (simp add: ms)
  then have "e = 500"
    by (simp only: signed_word_eqI)
  with h1 h2 h3 rng e(1,2) show ?thesis
    by simp
qed

text \<open>C3 as stated fails where the subtraction wraps: the meter stops at the least
  64-bit integer, below the start reading 1000, and the stored energy is 2^63 - 1000,
  not 0.\<close>

theorem Stop_energy_counterexample:
  "transactions example_db = [example_tx]
   \<and> tx_ID example_tx = 1
   \<and> tx_MeterStart example_tx = 1000
   \<and> sint (0x8000000000000000 :: go_int) < sint (1000 :: go_int)
   \<and> fst (Stop 200 example_db 1 0x8000000000000000 150 ''Local'') = Inr ()
   \<and> map tx_EnergyDelivered
        (transactions (snd (Stop 200 example_db 1 0x8000000000000000 150 ''Local'')))
       = [0x7FFFFFFFFFFFFC18]
   \<and> sint (0x7FFFFFFFFFFFFC18 :: go_int)
       \<noteq> max 0 (sint (0x8000000000000000 :: go_int) - sint (1000 :: go_int))"
  by (simp add: Stop_def exec_stmt_def example_db_def example_tx_def update_transactions_def
        word_sless_alt)

section \<open>Update\<close>

lemma tx_setParts_empty: "tx_setParts req = [] \<longleftrightarrow> no_transaction_field_set req"
  by (auto simp: tx_setParts_def no_transaction_field_set_def split: option.splits)

lemma ch_setParts_empty: "ch_setParts req = [] \<longleftrightarrow> no_charger_field_set req"
  by (auto simp: ch_setParts_def no_charger_field_set_def split: option.splits)

lemma fold_tx_part:
  "fold (apply_tx_set now) (case x of Some v \<Rightarrow> [Set_meter_stop v] | None \<Rightarrow> []) t
     = t\<lparr>tx_MeterStop := supplied (map_option Some x) (tx_MeterStop t)\<rparr>"
  "fold (apply_tx_set now) (case y of Some v \<Rightarrow> [Set_stop_time v] | None \<Rightarrow> []) t
     = t\<lparr>tx_StopTime := supplied (map_option Some y) (tx_StopTime t)\<rparr>"
  "fold (apply_tx_set now) (case x of Some v \<Rightarrow> [Set_energy_delivered v] | None \<Rightarrow> []) t
     = t\<lparr>tx_EnergyDelivered := supplied x (tx_EnergyDelivered t)\<rparr>"
  "fold (apply_tx_set now) (case z of Some v \<Rightarrow> [Set_stop_reason v] | None \<Rightarrow> []) t
     = t\<lparr>tx_StopReason := supplied z (tx_StopReason t)\<rparr>"
  "fold (apply_tx_set now) (case z of Some v \<Rightarrow> [Set_status v] | None \<Rightarrow> []) t
     = t\<lparr>tx_Status := supplied z (tx_Status t)\<rparr>"
  by (cases x; cases y; cases z; simp add: supplied_def)+

lemma fold_tx_setParts:
  "fold (apply_tx_set now) (tx_setParts req @ [Set_tx_updated_at_now]) t
     = spec_transaction_update now req t"
  by (simp add: tx_setParts_def spec_transaction_update_def fold_tx_part)

lemma fold_ch_part:
  "fold (apply_ch_set now) (case x of Some v \<Rightarrow> [Set_name v] | None \<Rightarrow> []) c
     = c\<lparr>ch_Name := supplied x (ch_Name c)\<rparr>"
  "fold (apply_ch_set now) (case x of Some v \<Rightarrow> [Set_vendor v] | None \<Rightarrow> []) c
     = c\<lparr>ch_Vendor := supplied x (ch_Vendor c)\<rparr>"
  "fold (apply_ch_set now) (case x of Some v \<Rightarrow> [Set_model v] | None \<Rightarrow> []) c
     = c\<lparr>ch_Model := supplied x (ch_Model c)\<rparr>"
  "fold (apply_ch_set now) (case x of Some v \<Rightarrow> [Set_serial_number v] | None \<Rightarrow> []) c
     = c\<lparr>ch_SerialNumber := supplied x (ch_SerialNumber c)\<rparr>"
  "fold (apply_ch_set now) (case x of Some v \<Rightarrow> [Set_firmware_version v] | None \<Rightarrow> []) c
     = c\<lparr>ch_FirmwareVersion := supplied x (ch_FirmwareVersion c)\<rparr>"
  "fold (apply_ch_set now) (case x of Some v \<Rightarrow> [Set_iccid v] | None \<Rightarrow> []) c
     = c\<lparr>ch_ICCID := supplied x (ch_ICCID c)\<rparr>"
  "fold (apply_ch_set now) (case x of Some v \<Rightarrow> [Set_imsi v] | None \<Rightarrow> []) c
     = c\<lparr>ch_IMSI := supplied x (ch_IMSI c)\<rparr>"
  "fold (apply_ch_set now) (case x of Some v \<Rightarrow> [Set_ch_status v] | None \<Rightarrow> []) c
     = c\<lparr>ch_Status := supplied x (ch_Status c)\<rparr>"
  "fold (apply_ch_set now)
     (case b of Some v \<Rightarrow> [Set_is_connected (if v then 1 else 0)] | None \<Rightarrow> []) c
     = c\<lparr>ch_IsConnected := supplied b (ch_IsConnected c)\<rparr>"
  by (cases x; cases b; simp add: supplied_def)+

lemma fold_ch_setParts:
  "fold (apply_ch_set now) (ch_setParts req @ [Set_ch_updated_at_now]) c
     = spec_charger_update now req c"
  by (simp add: ch_setParts_def spec_charger_update_def fold_ch_part)


lemma find_update_chargers:
  "find (\<lambda>c. ch_ID c = i) rows = Some c0 \<Longrightarrow> ch_ID (f c0) = i \<Longrightarrow>
   find (\<lambda>c. ch_ID c = i) (update_chargers f i rows) = Some (f c0)"
  by (induction rows) (auto simp: update_chargers_def)

lemma Update_unset:
  assumes "\<not> fault_at d 0" "find (\<lambda>t. tx_ID t = i) (transactions d) = Some t"
      and "no_transaction_field_set req"
  shows "fst (Update now d i req) = Inr t"
    and "transactions (snd (Update now d i req)) = transactions d"
proof -
  obtain d1 where "exec_stmt d = (\<not> fault_at d 0, d1)" "transactions d1 = transactions d"
    by (rule exec_stmt_split[of d]) blast
  with assms show "fst (Update now d i req) = Inr t"
    and "transactions (snd (Update now d i req)) = transactions d"
    by (simp_all add: Update_def Let_def tx_setParts_empty GetByID_def)
qed

lemma Update_set:
  assumes "\<not> fault_at d 0" "find (\<lambda>t. tx_ID t = i) (transactions d) = Some t"
      and "\<not> no_transaction_field_set req"
  shows "fst (Update now d i req) = Inr (spec_transaction_update now req t)"
    and "transactions (snd (Update now d i req))
         = update_transactions (spec_transaction_update now req) i (transactions d)"
proof -
  obtain d1 where d1: "exec_stmt d = (\<not> fault_at d 0, d1)" "transactions d1 = transactions d"
    by (rule exec_stmt_split[of d]) blast
  have "tx_ID t = i"
    using assms(2) by (rule find_Some_holds)
  then have "tx_ID (spec_transaction_update now req t) = i"
    by (simp add: spec_transaction_update_def)
  with assms(2) have fd: "find (\<lambda>t. tx_ID t = i)
       (update_transactions (spec_transaction_update now req) i (transactions d))
       = Some (spec_transaction_update now req t)"
    by (rule find_update_transactions)
  have fn: "fold (apply_tx_set now) (tx_setParts req @ [Set_tx_updated_at_now])
            = spec_transaction_update now req"
    by (rule ext) (rule fold_tx_setParts)
  from assms d1 fd show "fst (Update now d i req) = Inr (spec_transaction_update now req t)"
    and "transactions (snd (Update now d i req))
         = update_transactions (spec_transaction_update now req) i (transactions d)"
    by (simp_all add: Update_def Let_def tx_setParts_empty fn del: fold_append)
qed

lemma charger_Update_unset:
  assumes "\<not> fault_at d 0" "find (\<lambda>c. ch_ID c = j) (chargers d) = Some c"
      and "no_charger_field_set req"
  shows "fst (charger_Update now d j req) = Inr c"
    and "chargers (snd (charger_Update now d j req)) = chargers d"
proof -
  obtain d1 where "exec_stmt d = (\<not> fault_at d 0, d1)" "chargers d1 = chargers d"
    by (rule exec_stmt_split[of d]) blast
  with assms show "fst (charger_Update now d j req) = Inr c"
    and "chargers (snd (charger_Update now d j req)) = chargers d"
    by (simp_all add: charger_Update_def Let_def ch_setParts_empty charger_GetByID_def)
qed

lemma charger_Update_set:
  assumes "\<not> fault_at d 0" "find (\<lambda>c. ch_ID c = j) (chargers d) = Some c"
      and "\<not> no_charger_field_set req"
  shows "fst (charger_Update now d j req) = Inr (spec_charger_update now req c)"
    and "chargers (snd (charger_Update now d j req))
         = update_chargers (spec_charger_update now req) j (chargers d)"
proof -
  obtain d1 where d1: "exec_stmt d = (\<not> fault_at d 0, d1)" "chargers d1 = chargers d"
    by (rule exec_stmt_split[of d]) blast
  have "ch_ID c = j"
    using assms(2) by (rule find_Some_holds)
  then have "ch_ID (spec_charger_update now req c) = j"
    by (simp add: spec_charger_update_def)
  with assms(2) have fd: "find (\<lambda>c. ch_ID c = j)
       (update_chargers (spec_charger_update now req) j (chargers d))
       = Some (spec_charger_update now req c)"
    by (rule find_update_chargers)
  have fn: "fold (apply_ch_set now) (ch_setParts req @ [Set_ch_updated_at_now])
            = spec_charger_update now req"
    by (rule ext) (rule fold_ch_setParts)
  from assms d1 fd show "fst (charger_Update now d j req) = Inr (spec_charger_update now req c)"
    and "chargers (snd (charger_Update now d j req))
         = update_chargers (spec_charger_update now req) j (chargers d)"
    by (simp_all add: charger_Update_def Let_def ch_setParts_empty fn del: fold_append)
qed

text \<open>
  C7. For a row that exists and a statement that reaches the store: an update request with
  no field set returns the stored row as it is and leaves the table as it is (the
  last-modified time included); a request with at least one field set writes the supplied
  fields and the last-modified time, returns the row so written, and leaves every other
  column and every other row as they were. This holds for the transaction repository and
  for the charger repository.
\<close>

theorem Update_partial:
  assumes ok: "\<not> fault_at d 0"
      and tx: "find (\<lambda>t. tx_ID t = i) (transactions d) = Some t"
      and ch: "find (\<lambda>c. ch_ID c = j) (chargers d) = Some c"
  shows "(no_transaction_field_set req \<longrightarrow>
            fst (Update now d i req) = Inr t
            \<and> transactions (snd (Update now d i req)) = transactions d)
       \<and> (\<not> no_transaction_field_set req \<longrightarrow>
            fst (Update now d i req) = Inr (spec_transaction_update now req t)
            \<and> transactions (snd (Update now d i req))
                = update_transactions (spec_transaction_update now req) i (transactions d))
       \<and> (no_charger_field_set creq \<longrightarrow>
            fst (charger_Update now d j creq) = Inr c
            \<and> chargers (snd (charger_Update now d j creq)) = chargers d)
       \<and> (\<not> no_charger_field_set creq \<longrightarrow>
            fst (charger_Update now d j creq) = Inr (spec_charger_update now creq c)
            \<and> chargers (snd (charger_Update now d j creq))
                = update_chargers (spec_charger_update now creq) j (chargers d))"
  using Update_unset[OF ok tx] Update_set[OF ok tx]
        charger_Update_unset[OF ok ch] charger_Update_set[OF ok ch]
  by blast

theorem Update_partial_witness:
  "\<not> fault_at example_db 0
   \<and> find (\<lambda>t. tx_ID t = 1) (transactions example_db) = Some example_tx
   \<and> find (\<lambda>c. ch_ID c = ''CP1'') (chargers example_db) = Some example_charger
   \<and> no_transaction_field_set keep_all_tx
   \<and> fst (Update 300 example_db 1 keep_all_tx) = Inr example_tx
   \<and> transactions (snd (Update 300 example_db 1 keep_all_tx)) = [example_tx]
   \<and> \<not> no_transaction_field_set abort_tx
   \<and> fst (Update 300 example_db 1 abort_tx)
       = Inr (example_tx\<lparr>tx_Status := ''Aborted'', tx_UpdatedAt := 300\<rparr>)
   \<and> no_charger_field_set keep_all_charger
   \<and> fst (charger_Update 300 example_db ''CP1'' keep_all_charger) = Inr example_charger
   \<and> \<not> no_charger_field_set rename_charger
   \<and> fst (charger_Update 300 example_db ''CP1'' rename_charger)
       = Inr (example_charger\<lparr>ch_Name := ''Garage'', ch_UpdatedAt := 300\<rparr>)"
proof -
  have h1: "\<not> fault_at example_db 0"
    by (simp add: fault_at_def example_db_def)
  have h2: "find (\<lambda>t. tx_ID t = 1) (transactions example_db) = Some example_tx"
    by (simp add: example_db_def example_tx_def)
  have h3: "find (\<lambda>c. ch_ID c = ''CP1'') (chargers example_db) = Some example_charger"
    by (simp add: example_db_def example_charger_def)
  have n1: "no_transaction_field_set keep_all_tx" and n2: "\<not> no_transaction_field_set abort_tx"
    by (simp_all add: no_transaction_field_set_def keep_all_tx_def abort_tx_def)
  have n3: "no_charger_field_set keep_all_charger"
    and n4: "\<not> no_charger_field_set rename_charger"
    by (simp_all add: no_charger_field_set_def keep_all_charger_def rename_charger_def)
  have s1: "spec_transaction_update 300 abort_tx example_tx
            = example_tx\<lparr>tx_Status := ''Aborted'', tx_UpdatedAt := 300\<rparr>"
    by (simp add: spec_transaction_update_def abort_tx_def supplied_def example_tx_def)
  have s2: "spec_charger_update 300 rename_charger example_charger
            = example_charger\<lparr>ch_Name := ''Garage'', ch_UpdatedAt := 300\<rparr>"
    by (simp add: spec_charger_update_def rename_charger_def supplied_def example_charger_def)
  have t: "transactions example_db = [example_tx]"
    by (simp add: example_db_def)
  show ?thesis
    using Update_partial[OF h1 h2 h3, where req = keep_all_tx and creq = keep_all_charger
            and now = 300]
          Update_partial[OF h1 h2 h3, where req = abort_tx and creq = rename_charger
            and now = 300]
          h1 h2 h3 n1 n2 n3 n4
    by (simp add: s1 s2 t)
qed

section \<open>Reads that find no row\<close>

lemma latest_by_None: "latest_by key rows = None \<longleftrightarrow> rows = []"
  by (cases rows) (auto split: option.splits)

lemma GetActiveByConnector_reads:
  assumes "\<not> fault_at d 0"
  shows "fst (GetActiveByConnector d c k)
         = Inr (latest_by tx_StartTime (filter (is_active_on c k) (transactions d)))"
proof -
  obtain d1 where "exec_stmt d = (\<not> fault_at d 0, d1)" "transactions d1 = transactions d"
    by (rule exec_stmt_split[of d]) blast
  with assms show ?thesis
    by (simp add: GetActiveByConnector_def split: option.splits)
qed

lemma GetLatestByConnector_reads:
  assumes "\<not> fault_at d 0"
  shows "fst (GetLatestByConnector d c k)
         = Inr (latest_by (\<lambda>m. text_key (mv_Timestamp m))
                  (filter (on_connector c k) (meter_values d)))"
proof -
  obtain d1 where "exec_stmt d = (\<not> fault_at d 0, d1)" "meter_values d1 = meter_values d"
    by (rule exec_stmt_split[of d]) blast
  moreover have "on_connector c k = (\<lambda>m. mv_ChargerID m = c \<and> mv_ConnectorID m = k)"
    by (simp add: on_connector_def fun_eq_iff)
  ultimately show ?thesis
    using assms by (simp add: GetLatestByConnector_def split: option.splits)
qed

text \<open>The latest meter value is the one whose stored text is greatest, not the one
  taken last: of the two readings the query returns the one of 10:00+02:00.\<close>

lemma GetLatestByConnector_text_order:
  "GetLatestByConnector metered_db ''CP1'' 1 = (Inr (Some reading_east), metered_db)"
  by (simp add: GetLatestByConnector_def exec_stmt_def metered_db_def text_key_def
        reading_utc_def reading_east_def)

lemma GetByID_reads:
  assumes "\<not> fault_at d 0"
  shows "fst (GetByID d i)
         = (case find (\<lambda>t. tx_ID t = i) (transactions d) of
              None \<Rightarrow> Inl (NotFound ''transaction'') | Some t \<Rightarrow> Inr t)"
proof -
  obtain d1 where "exec_stmt d = (\<not> fault_at d 0, d1)" "transactions d1 = transactions d"
    by (rule exec_stmt_split[of d]) blast
  with assms show ?thesis
    by (simp add: GetByID_def split: option.splits)
qed

text \<open>
  C10. When the statement reaches the store, GetActiveByConnector returns nil with a nil
  error exactly when no Active transaction row exists for the connector, and
  GetLatestByConnector returns nil with a nil error exactly when no meter value row exists
  for the connector; GetByID on an absent id returns the "transaction not found" error
  instead.
\<close>

theorem absent_row_results:
  assumes ok: "\<not> fault_at d 0"
  shows "(fst (GetActiveByConnector d c k) = Inr None
            \<longleftrightarrow> filter (is_active_on c k) (transactions d) = [])
       \<and> (fst (GetLatestByConnector d c k) = Inr None
            \<longleftrightarrow> filter (on_connector c k) (meter_values d) = [])
       \<and> (find (\<lambda>t. tx_ID t = i) (transactions d) = None
            \<longrightarrow> fst (GetByID d i) = Inl (NotFound ''transaction''))"
  by (simp add: GetActiveByConnector_reads[OF ok] GetLatestByConnector_reads[OF ok]
        GetByID_reads[OF ok] latest_by_None)

theorem absent_row_results_witness:
  "\<not> fault_at example_db 0
   \<and> filter (is_active_on ''CP1'' 2) (transactions example_db) = []
   \<and> fst (GetActiveByConnector example_db ''CP1'' 2) = Inr None
   \<and> filter (on_connector ''CP1'' 2) (meter_values example_db) = []
   \<and> fst (GetLatestByConnector example_db ''CP1'' 2) = Inr None
   \<and> find (\<lambda>t. tx_ID t = 7) (transactions example_db) = None
   \<and> fst (GetByID example_db 7) = Inl (NotFound ''transaction'')"
proof -
  have h: "\<not> fault_at example_db 0"
    by (simp add: fault_at_def example_db_def)
  have a: "filter (is_active_on ''CP1'' 2) (transactions example_db) = []"
    by (simp add: example_db_def example_tx_def is_active_on_def)
  have m: "filter (on_connector ''CP1'' 2) (meter_values example_db) = []"
    by (simp add: example_db_def)
  have f: "find (\<lambda>t. tx_ID t = 7) (transactions example_db) = None"
    by (simp add: example_db_def example_tx_def)
  show ?thesis
    using absent_row_results[OF h, of "''CP1''" 2 7] h a m f by simp
qed

section \<open>List\<close>

lemma transaction_allow_list:
  "go_map_index transaction_validOrderFields k \<longleftrightarrow>
   k \<in> set [''id'', ''transaction_id'', ''charger_id'', ''connector_id'', ''id_tag'',
            ''start_time'', ''stop_time'', ''status'', ''created_at'', ''updated_at'']"
  by (simp add: go_map_index_def transaction_validOrderFields_def)

text \<open>
  C9. For every ListOptions, the statement List sends is the fixed SELECT followed by
  ORDER BY with a column of the allow-list and a direction that is ASC or DESC: the
  requested column when it is in the allow-list and created_at otherwise, the requested
  direction when it is ASC or DESC and DESC otherwise. No other text of the caller's
  reaches the statement.
\<close>

theorem List_order_by_allow_listed:
  "\<exists>col \<in> set [''id'', ''transaction_id'', ''charger_id'', ''connector_id'', ''id_tag'',
            ''start_time'', ''stop_time'', ''status'', ''created_at'', ''updated_at''].
   \<exists>dir \<in> {''ASC'', ''DESC''}.
     List_query opts = order_by_query transaction_select col dir
     \<and> col = (if lo_OrderBy opts \<in> set [''id'', ''transaction_id'', ''charger_id'',
                  ''connector_id'', ''id_tag'', ''start_time'', ''stop_time'', ''status'',
                  ''created_at'', ''updated_at'']
              then lo_OrderBy opts else ''created_at'')
     \<and> dir = (if lo_SortDir opts = ''ASC'' \<or> lo_SortDir opts = ''DESC''
              then lo_SortDir opts else ''DESC'')"
  unfolding List_query_def List_opts_def Let_def transaction_allow_list
  by (simp add: ValidateSortDirection_def)

theorem List_order_by_allow_listed_witness:
  "lo_OrderBy injection_opts = ''id; DROP TABLE transactions''
   \<and> lo_SortDir injection_opts = ''asc''
   \<and> List_query injection_opts = order_by_query transaction_select ''created_at'' ''DESC''"
proof -
  obtain col dir where q: "List_query injection_opts = order_by_query transaction_select col dir"
    and c: "col = (if lo_OrderBy injection_opts \<in> set [''id'', ''transaction_id'',
                  ''charger_id'', ''connector_id'', ''id_tag'', ''start_time'', ''stop_time'',
                  ''status'', ''created_at'', ''updated_at'']
              then lo_OrderBy injection_opts else ''created_at'')"
    and d: "dir = (if lo_SortDir injection_opts = ''ASC'' \<or> lo_SortDir injection_opts = ''DESC''
              then lo_SortDir injection_opts else ''DESC'')"
    using List_order_by_allow_listed[of injection_opts] by blast
  have "col = ''created_at''"
    using c by (simp add: injection_opts_def)
  moreover have "dir = ''DESC''"
    using d by (simp add: injection_opts_def)
  ultimately show ?thesis
    using q by (simp add: injection_opts_def)
qed

section \<open>Resolving charger errors\<close>

lemma ResolveByErrorCode_result:
  assumes "\<not> fault_at d 0"
  shows "fst (ResolveByErrorCode d c code at)
         = Inr (of_nat (length (filter (resolvable c code) (charger_errors d))))"
    and "charger_errors (snd (ResolveByErrorCode d c code at))
         = map (\<lambda>e. if resolvable c code e then e\<lparr>ce_ResolvedAt := Some at\<rparr> else e)
             (charger_errors d)"
proof -
  obtain d1 where "exec_stmt d = (\<not> fault_at d 0, d1)" "charger_errors d1 = charger_errors d"
    by (rule exec_stmt_split[of d]) blast
  with assms show "fst (ResolveByErrorCode d c code at)
         = Inr (of_nat (length (filter (resolvable c code) (charger_errors d))))"
    and "charger_errors (snd (ResolveByErrorCode d c code at))
         = map (\<lambda>e. if resolvable c code e then e\<lparr>ce_ResolvedAt := Some at\<rparr> else e)
             (charger_errors d)"
    by (simp_all add: ResolveByErrorCode_def Let_def)
qed

text \<open>ResolveByErrorCode leaves an already resolved row as it is, and the count it
  returns is the number of rows that were unresolved and matched.\<close>

lemma untouched_row_stays:
  "e \<in> set rows \<Longrightarrow> \<not> P e \<Longrightarrow> e \<in> set (map (\<lambda>r. if P r then f r else r) rows)"
  by (induction rows) auto

lemma ResolveByErrorCode_keeps_resolved:
  assumes "\<not> fault_at d 0" and "e \<in> set (charger_errors d)" and "ce_ResolvedAt e \<noteq> None"
  shows "e \<in> set (charger_errors (snd (ResolveByErrorCode d c code at)))"
proof -
  have "\<not> resolvable c code e"
    using assms(3) by (simp add: resolvable_def)
  with assms(2) show ?thesis
    unfolding ResolveByErrorCode_result(2)[OF assms(1)] by (rule untouched_row_stays)
qed

text \<open>
  C8 at a failing input. The store holds one charger error, resolved at time 10.
  Resolve(1, 20) succeeds and the row's resolution time is 20 afterwards: the UPDATE of
  Resolve has no \<open>resolved_at IS NULL\<close> condition, so the time is set a second time.
\<close>

theorem Resolve_overwrites_resolved_at:
  "map ce_ID (charger_errors resolved_db) = [1]
   \<and> map ce_ResolvedAt (charger_errors resolved_db) = [Some 10]
   \<and> fst (Resolve resolved_db 1 20) = Inr ()
   \<and> map ce_ResolvedAt (charger_errors (snd (Resolve resolved_db 1 20))) = [Some 20]"
  by (simp add: Resolve_def exec_stmt_def resolved_db_def resolved_error_def)

section \<open>GenerateTransactionID\<close>

lemma exec_stmt_snd:
  "transactions (snd (exec_stmt d)) = transactions d"
  "fault_at (snd (exec_stmt d)) k = fault_at d (Suc k)"
  "fst (exec_stmt d) = (\<not> fault_at d 0)"
proof -
  obtain d1 where d1: "exec_stmt d = (\<not> fault_at d 0, d1)" "transactions d1 = transactions d"
      "\<And>k. fault_at d1 k = fault_at d (Suc k)"
    by (rule exec_stmt_split[of d]) blast
  then show "transactions (snd (exec_stmt d)) = transactions d"
    "fault_at (snd (exec_stmt d)) k = fault_at d (Suc k)"
    "fst (exec_stmt d) = (\<not> fault_at d 0)"
    by simp_all
qed

lemma count_after_exec [simp]:
  "count_transaction_id (snd (exec_stmt d)) c = count_transaction_id d c"
  by (simp add: count_transaction_id_def exec_stmt_snd(1))

text \<open>One pass of the loop.\<close>

lemma generate_loop_step:
  "generate_loop a env d =
     (if a < 10 then
        (if \<not> fault_at d 0 \<and> count_transaction_id d (candidateID (env a)) = 0
         then (Inr (candidateID (env a)), snd (exec_stmt d))
         else generate_loop (Suc a) env (snd (exec_stmt d)))
      else (Inl IdentifierExhausted, d))"
proof -
  obtain d1 where d1: "exec_stmt d = (\<not> fault_at d 0, d1)" "transactions d1 = transactions d"
    by (rule exec_stmt_split[of d]) blast
  have "count_transaction_id d1 (candidateID (env a)) = count_transaction_id d (candidateID (env a))"
    using d1(2) by (simp add: count_transaction_id_def)
  with d1(1) show ?thesis
    by (cases "fault_at d 0") (simp_all add: generate_loop.simps[of a env d])
qed

lemma generate_loop_transactions:
  "transactions (snd (generate_loop a env d)) = transactions d"
proof (induction "10 - a" arbitrary: a d)
  case 0
  then show ?case by (simp add: generate_loop_step[of a])
next
  case (Suc n)
  then have "n = 10 - Suc a" by arith
  from Suc(1)[OF this, of "snd (exec_stmt d)"] show ?case
    by (simp add: generate_loop_step[of a env d] exec_stmt_snd(1))
qed

text \<open>A run entered at pass \<open>a\<close> with the store \<open>d\<close> sees statement \<open>k - a\<close> of \<open>d\<close> at
  pass \<open>k\<close>.\<close>

lemma generate_loop_success:
  "fst (generate_loop a env d) = Inr c \<Longrightarrow>
   \<exists>k. a \<le> k \<and> k < 10 \<and> c = candidateID (env k) \<and> \<not> fault_at d (k - a)
       \<and> count_transaction_id d c = 0
       \<and> (\<forall>j. a \<le> j \<and> j < k \<longrightarrow>
              fault_at d (j - a) \<or> count_transaction_id d (candidateID (env j)) \<noteq> 0)"
proof (induction "10 - a" arbitrary: a d)
  case 0
  then show ?case by (simp add: generate_loop_step[of a])
next
  case (Suc n)
  then have n: "n = 10 - Suc a" and lt: "a < 10" by arith+
  let ?d1 = "snd (exec_stmt d)"
  show ?case
  proof (cases "\<not> fault_at d 0 \<and> count_transaction_id d (candidateID (env a)) = 0")
    case True
    with Suc.prems lt have "c = candidateID (env a)"
      by (simp add: generate_loop_step[of a env d])
    with True lt show ?thesis
      by (intro exI[of _ a]) auto
  next
    case False
    with Suc.prems lt have "fst (generate_loop (Suc a) env ?d1) = Inr c"
      by (simp add: generate_loop_step[of a env d])
    from Suc(1)[OF n this] obtain k where k: "Suc a \<le> k" "k < 10" "c = candidateID (env k)"
        "\<not> fault_at ?d1 (k - Suc a)" "count_transaction_id ?d1 c = 0"
        "\<forall>j. Suc a \<le> j \<and> j < k \<longrightarrow>
             fault_at ?d1 (j - Suc a) \<or> count_transaction_id ?d1 (candidateID (env j)) \<noteq> 0"
      by blast
    have shift: "\<And>j. Suc a \<le> j \<Longrightarrow> Suc (j - Suc a) = j - a"
      by arith
    have a: "\<not> fault_at d (k - a)"
      using k(1,4) shift[of k] by (simp add: exec_stmt_snd(2))
    have b: "\<forall>j. a \<le> j \<and> j < k \<longrightarrow>
               fault_at d (j - a) \<or> count_transaction_id d (candidateID (env j)) \<noteq> 0"
    proof (intro allI impI)
      fix j assume j: "a \<le> j \<and> j < k"
      show "fault_at d (j - a) \<or> count_transaction_id d (candidateID (env j)) \<noteq> 0"
      proof (cases "j = a")
        case True
        with False show ?thesis by auto
      next
        case False
        with j have "Suc a \<le> j" by arith
        with k(6) j shift[of j] show ?thesis
          by (auto simp: exec_stmt_snd(2))
      qed
    qed
    from k a b show ?thesis
      by (intro exI[of _ k]) auto
  qed
qed

lemma generate_loop_exhausted:
  "(\<forall>k. a \<le> k \<and> k < 10 \<longrightarrow>
       fault_at d (k - a) \<or> count_transaction_id d (candidateID (env k)) \<noteq> 0) \<Longrightarrow>
   fst (generate_loop a env d) = Inl IdentifierExhausted"
proof (induction "10 - a" arbitrary: a d)
  case 0
  then show ?case by (simp add: generate_loop_step[of a])
next
  case (Suc n)
  then have n: "n = 10 - Suc a" and lt: "a < 10" by arith+
  let ?d1 = "snd (exec_stmt d)"
  have here: "fault_at d 0 \<or> count_transaction_id d (candidateID (env a)) \<noteq> 0"
    using Suc.prems lt by (auto dest: spec[of _ a])
  have shift: "\<And>j. Suc a \<le> j \<Longrightarrow> Suc (j - Suc a) = j - a"
    by arith
  have rest: "\<forall>k. Suc a \<le> k \<and> k < 10 \<longrightarrow>
      fault_at ?d1 (k - Suc a) \<or> count_transaction_id ?d1 (candidateID (env k)) \<noteq> 0"
  proof (intro allI impI)
    fix k assume k: "Suc a \<le> k \<and> k < 10"
    then have "a \<le> k \<and> k < 10" by arith
    with Suc.prems have "fault_at d (k - a)
        \<or> count_transaction_id d (candidateID (env k)) \<noteq> 0" by blast
    with k shift[of k] show "fault_at ?d1 (k - Suc a)
        \<or> count_transaction_id ?d1 (candidateID (env k)) \<noteq> 0"
      by (auto simp: exec_stmt_snd(2))
  qed
  from Suc(1)[OF n rest] here lt show ?case
    by (auto simp: generate_loop_step[of a env d])
qed

lemma generate_loop_exhausted_only:
  "fst (generate_loop a env d) = Inl IdentifierExhausted \<Longrightarrow>
   \<forall>k. a \<le> k \<and> k < 10 \<longrightarrow>
       fault_at d (k - a) \<or> count_transaction_id d (candidateID (env k)) \<noteq> 0"
proof (induction "10 - a" arbitrary: a d)
  case 0
  show ?case
  proof (intro allI impI)
    fix k assume "a \<le> k \<and> k < 10"
    with 0(1) have False by arith
    then show "fault_at d (k - a) \<or> count_transaction_id d (candidateID (env k)) \<noteq> 0" ..
  qed
next
  case (Suc n)
  then have n: "n = 10 - Suc a" and lt: "a < 10" by arith+
  let ?d1 = "snd (exec_stmt d)"
  have here: "fault_at d 0 \<or> count_transaction_id d (candidateID (env a)) \<noteq> 0"
    using Suc.prems lt by (auto simp: generate_loop_step[of a env d] split: if_splits)
  with Suc.prems lt have "fst (generate_loop (Suc a) env ?d1) = Inl IdentifierExhausted"
    by (auto simp: generate_loop_step[of a env d])
  from Suc(1)[OF n this]
  have rest: "\<forall>k. Suc a \<le> k \<and> k < 10 \<longrightarrow>
      fault_at ?d1 (k - Suc a) \<or> count_transaction_id ?d1 (candidateID (env k)) \<noteq> 0" .
  have shift: "\<And>j. Suc a \<le> j \<Longrightarrow> Suc (j - Suc a) = j - a"
    by arith
  show ?case
  proof (intro allI impI)
    fix k assume k: "a \<le> k \<and> k < 10"
    show "fault_at d (k - a) \<or> count_transaction_id d (candidateID (env k)) \<noteq> 0"
    proof (cases "k = a")
      case True
      with here show ?thesis by simp
    next
      case False
      with k have "Suc a \<le> k \<and> k < 10" by arith
      with rest shift[of k] show ?thesis
        by (auto simp: exec_stmt_snd(2))
    qed
  qed
qed

lemma generate_loop_outcome:
  "fst (generate_loop a env d) = Inl IdentifierExhausted
   \<or> (\<exists>c. fst (generate_loop a env d) = Inr c)"
proof (induction "10 - a" arbitrary: a d)
  case 0
  then show ?case by (simp add: generate_loop_step[of a])
next
  case (Suc n)
  then have n: "n = 10 - Suc a" by arith
  from Suc(1)[OF n, of "snd (exec_stmt d)"] show ?case
    by (auto simp: generate_loop_step[of a env d])
qed

text \<open>
  C4. GenerateTransactionID makes at most ten passes, one candidate and one check query
  each. A returned identifier is the candidate of some pass k < 10 whose check query
  succeeded and found no transaction row with that transaction_id, every earlier pass
  having been refused (query failure or collision). It returns the "failed to generate
  unique transaction ID after 10 attempts" error exactly when all ten passes are refused.
  There is no third outcome, so it always returns, and it leaves the table as it is.
\<close>

theorem GenerateTransactionID_bounded:
  "(\<forall>c. fst (GenerateTransactionID env d) = Inr c \<longrightarrow>
       (\<exists>k<10. c = candidateID (env k) \<and> \<not> fault_at d k
              \<and> count_transaction_id d c = 0
              \<and> (\<forall>j<k. fault_at d j
                        \<or> count_transaction_id d (candidateID (env j)) \<noteq> 0)))
   \<and> (fst (GenerateTransactionID env d) = Inl IdentifierExhausted
        \<longleftrightarrow> (\<forall>k<10. fault_at d k
                      \<or> count_transaction_id d (candidateID (env k)) \<noteq> 0))
   \<and> (fst (GenerateTransactionID env d) = Inl IdentifierExhausted
        \<or> (\<exists>c. fst (GenerateTransactionID env d) = Inr c))
   \<and> transactions (snd (GenerateTransactionID env d)) = transactions d"
proof (intro conjI allI impI)
  fix c assume "fst (GenerateTransactionID env d) = Inr c"
  then have "fst (generate_loop 0 env d) = Inr c"
    by (simp add: GenerateTransactionID_def)
  from generate_loop_success[OF this]
  show "\<exists>k<10. c = candidateID (env k) \<and> \<not> fault_at d k \<and> count_transaction_id d c = 0
          \<and> (\<forall>j<k. fault_at d j \<or> count_transaction_id d (candidateID (env j)) \<noteq> 0)"
    by auto
next
  show "fst (GenerateTransactionID env d) = Inl IdentifierExhausted
        \<longleftrightarrow> (\<forall>k<10. fault_at d k \<or> count_transaction_id d (candidateID (env k)) \<noteq> 0)"
  proof
    assume "fst (GenerateTransactionID env d) = Inl IdentifierExhausted"
    then have "fst (generate_loop 0 env d) = Inl IdentifierExhausted"
      by (simp add: GenerateTransactionID_def)
    from generate_loop_exhausted_only[OF this]
    show "\<forall>k<10. fault_at d k \<or> count_transaction_id d (candidateID (env k)) \<noteq> 0"
      by simp
  next
    assume "\<forall>k<10. fault_at d k \<or> count_transaction_id d (candidateID (env k)) \<noteq> 0"
    then have "\<forall>k. 0 \<le> k \<and> k < 10 \<longrightarrow>
        fault_at d (k - 0) \<or> count_transaction_id d (candidateID (env k)) \<noteq> 0"
      by simp
    from generate_loop_exhausted[OF this]
    show "fst (GenerateTransactionID env d) = Inl IdentifierExhausted"
      by (simp add: GenerateTransactionID_def)
  qed
next
  show "fst (GenerateTransactionID env d) = Inl IdentifierExhausted
        \<or> (\<exists>c. fst (GenerateTransactionID env d) = Inr c)"
    using generate_loop_outcome[of 0 env d] by (simp add: GenerateTransactionID_def)
next
  show "transactions (snd (GenerateTransactionID env d)) = transactions d"
    by (simp add: GenerateTransactionID_def generate_loop_transactions)
qed

lemma candidateID_stuck: "candidateID (stuck_env k) = 1000"
  by (simp add: candidateID_def stuck_env_def word_sle_eq)

lemma example_count_1000: "count_transaction_id example_db 1000 = 1"
  by (simp add: count_transaction_id_def example_db_def example_tx_def)

lemma candidateID_counting_0: "candidateID (counting_env 0) = 1000" and candidateID_counting_1: "candidateID (counting_env 1) = 1001"
  by (simp_all add: candidateID_def counting_env_def word_sle_eq)

theorem GenerateTransactionID_bounded_witness:
  "count_transaction_id example_db (candidateID (counting_env 0)) = 1
   \<and> candidateID (counting_env 1) = 1001
   \<and> count_transaction_id example_db 1001 = 0
   \<and> fst (GenerateTransactionID counting_env example_db) = Inr 1001
   \<and> candidateID (stuck_env 0) = 1000
   \<and> count_transaction_id example_db 1000 = 1
   \<and> fst (GenerateTransactionID stuck_env example_db) = Inl IdentifierExhausted"
proof -
  have nf: "\<And>k. \<not> fault_at example_db k"
    by (simp add: fault_at_def example_db_def)
  have cnt1001: "count_transaction_id example_db 1001 = 0"
    by (simp add: count_transaction_id_def example_db_def example_tx_def)
  have all: "\<forall>k<10. fault_at example_db k
               \<or> count_transaction_id example_db (candidateID (stuck_env k)) \<noteq> 0"
    by (simp add: candidateID_stuck example_count_1000)
  have ex: "fst (GenerateTransactionID stuck_env example_db) = Inl IdentifierExhausted"
    using GenerateTransactionID_bounded[of stuck_env example_db] all by blast
  have "\<not> (\<forall>k<10. fault_at example_db k
               \<or> count_transaction_id example_db (candidateID (counting_env k)) \<noteq> 0)"
    using nf candidateID_counting_1 cnt1001 by (auto intro!: exI[of _ 1])
  then obtain c where c: "fst (GenerateTransactionID counting_env example_db) = Inr c"
    using GenerateTransactionID_bounded[of counting_env example_db] by blast
  then obtain k where k: "k < 10" "c = candidateID (counting_env k)"
      "count_transaction_id example_db c = 0"
      "\<forall>j<k. fault_at example_db j
             \<or> count_transaction_id example_db (candidateID (counting_env j)) \<noteq> 0"
    using GenerateTransactionID_bounded[of counting_env example_db] by blast
  have "k \<noteq> 0"
  proof
    assume "k = 0"
    with k(2,3) candidateID_counting_0 example_count_1000 show False by simp
  qed
  moreover have "k \<le> 1"
  proof (rule ccontr)
    assume "\<not> k \<le> 1"
    then have "1 < k" by simp
    with k(4) have "fault_at example_db 1
        \<or> count_transaction_id example_db (candidateID (counting_env 1)) \<noteq> 0" by blast
    with nf candidateID_counting_1 cnt1001 show False by simp
  qed
  ultimately have "k = 1" by simp
  with k(2) candidateID_counting_1 c have "fst (GenerateTransactionID counting_env example_db) = Inr 1001"
    by simp
  with ex candidateID_counting_0 candidateID_counting_1 example_count_1000 cnt1001 candidateID_stuck show ?thesis
    by simp
qed

section \<open>Create\<close>

lemma insert_transaction_appends:
  assumes "insert_transaction now d c req = (Inr tx, d')"
  shows "transactions d' = transactions d @ [tx]"
    and "tx_Status tx = ''Active''"
    and "tx_ChargerID tx = ctr_ChargerID req"
    and "tx_ConnectorID tx = ctr_ConnectorID req"
    and "tx_MeterStart tx = ctr_MeterStart req"
    and "tx_StopReason tx = []" and "tx_MeterStop tx = None" and "tx_StopTime tx = None"
proof -
  obtain d1 where d1: "exec_stmt d = (\<not> fault_at d 0, d1)" "transactions d1 = transactions d"
    by (rule exec_stmt_split[of d]) blast
  from assms d1 show "transactions d' = transactions d @ [tx]"
    and "tx_Status tx = ''Active''"
    and "tx_ChargerID tx = ctr_ChargerID req"
    and "tx_ConnectorID tx = ctr_ConnectorID req"
    and "tx_MeterStart tx = ctr_MeterStart req"
    and "tx_StopReason tx = []" and "tx_MeterStop tx = None" and "tx_StopTime tx = None"
    by (cases "fault_at d 0"; auto simp: insert_transaction_def Let_def split: if_splits)+
qed

lemma Create_appends:
  assumes "Create env now d req = (Inr tx, d')"
  shows "transactions d' = transactions d @ [tx]"
    and "tx_Status tx = ''Active''"
    and "tx_ChargerID tx = ctr_ChargerID req"
    and "tx_ConnectorID tx = ctr_ConnectorID req"
    and "tx_MeterStart tx = ctr_MeterStart req"
    and "tx_StopReason tx = []" and "tx_MeterStop tx = None" and "tx_StopTime tx = None"
proof -
  define g where "g = (case ctr_TransactionID req of
              Some i \<Rightarrow> (Inr i, d)
            | None \<Rightarrow> GenerateTransactionID env d)"
  have gt: "transactions (snd g) = transactions d"
    by (cases "ctr_TransactionID req")
       (simp_all add: g_def GenerateTransactionID_def generate_loop_transactions)
  obtain r d1 where g: "g = (r, d1)" by (cases g)
  with gt have d1: "transactions d1 = transactions d" by simp
  from assms g obtain c where c: "r = Inr c"
    by (cases r) (simp_all add: Create_def g_def[symmetric])
  with assms g have ins: "insert_transaction now d1 c req = (Inr tx, d')"
    by (cases "insert_transaction now d1 c req"; cases "fst (insert_transaction now d1 c req)")
       (auto simp: Create_def g_def[symmetric])
  from insert_transaction_appends[OF ins] d1
  show "transactions d' = transactions d @ [tx]"
    and "tx_Status tx = ''Active''"
    and "tx_ChargerID tx = ctr_ChargerID req"
    and "tx_ConnectorID tx = ctr_ConnectorID req"
    and "tx_MeterStart tx = ctr_MeterStart req"
    and "tx_StopReason tx = []" and "tx_MeterStop tx = None" and "tx_StopTime tx = None"
    by simp_all
qed

text \<open>On a store whose statements do not fail, the loop returns the first free
  candidate, if one of the ten is free, and leaves the store as it is.\<close>

lemma exec_stmt_no_faults: "faults d = [] \<Longrightarrow> exec_stmt d = (True, d)"
  by (simp add: exec_stmt_def)

lemma fault_at_no_faults: "faults d = [] \<Longrightarrow> \<not> fault_at d k"
  by (simp add: fault_at_def)

lemma generate_loop_no_faults:
  "faults d = [] \<Longrightarrow> snd (generate_loop a env d) = d"
proof (induction "10 - a" arbitrary: a)
  case 0
  then show ?case by (simp add: generate_loop_step[of a])
next
  case (Suc n)
  then have "n = 10 - Suc a" by arith
  from Suc(1)[OF this Suc(3)] Suc(3) show ?case
    by (simp add: generate_loop_step[of a env d] exec_stmt_no_faults)
qed

lemma GenerateTransactionID_no_faults:
  assumes nf: "faults d = []"
  shows "(\<exists>c. GenerateTransactionID env d = (Inr c, d) \<and> count_transaction_id d c = 0)
         \<longleftrightarrow> (\<exists>k<10. count_transaction_id d (candidateID (env k)) = 0)"
    and "(\<exists>c. fst (GenerateTransactionID env d) = Inr c)
         \<longleftrightarrow> (\<exists>k<10. count_transaction_id d (candidateID (env k)) = 0)"
proof -
  have sn: "snd (generate_loop 0 env d) = d"
    using nf by (rule generate_loop_no_faults)
  have fwd: "\<exists>k<10. count_transaction_id d (candidateID (env k)) = 0
             \<and> count_transaction_id d c = 0"
    if "fst (generate_loop 0 env d) = Inr c" for c
    using generate_loop_success[OF that] by auto
  have bwd: "\<exists>c. fst (generate_loop 0 env d) = Inr c"
    if free: "\<exists>k<10. count_transaction_id d (candidateID (env k)) = 0"
  proof (rule ccontr)
    assume "\<not> (\<exists>c. fst (generate_loop 0 env d) = Inr c)"
    with generate_loop_outcome[of 0 env d]
    have "fst (generate_loop 0 env d) = Inl IdentifierExhausted" by simp
    from generate_loop_exhausted_only[OF this] free fault_at_no_faults[OF nf]
    show False by auto
  qed
  show "(\<exists>c. fst (GenerateTransactionID env d) = Inr c)
         \<longleftrightarrow> (\<exists>k<10. count_transaction_id d (candidateID (env k)) = 0)"
    unfolding GenerateTransactionID_def using fwd bwd by blast
  show "(\<exists>c. GenerateTransactionID env d = (Inr c, d) \<and> count_transaction_id d c = 0)
         \<longleftrightarrow> (\<exists>k<10. count_transaction_id d (candidateID (env k)) = 0)"
  proof
    assume "\<exists>c. GenerateTransactionID env d = (Inr c, d) \<and> count_transaction_id d c = 0"
    then obtain c where "fst (generate_loop 0 env d) = Inr c"
      by (auto simp: GenerateTransactionID_def)
    from fwd[OF this] show "\<exists>k<10. count_transaction_id d (candidateID (env k)) = 0"
      by blast
  next
    assume "\<exists>k<10. count_transaction_id d (candidateID (env k)) = 0"
    from bwd[OF this] obtain c where c: "fst (generate_loop 0 env d) = Inr c" by blast
    from fwd[OF c] have "count_transaction_id d c = 0" by blast
    moreover from c sn have "generate_loop 0 env d = (Inr c, d)"
      by (cases "generate_loop 0 env d") simp
    ultimately show "\<exists>c. GenerateTransactionID env d = (Inr c, d)
                        \<and> count_transaction_id d c = 0"
      by (auto simp: GenerateTransactionID_def)
  qed
qed

lemma insert_transaction_no_faults:
  assumes "faults d = []"
  shows "(\<exists>tx d'. insert_transaction now d c req = (Inr tx, d'))
         \<longleftrightarrow> seq_transactions d \<noteq> 0x7FFFFFFFFFFFFFFF
             \<and> count_transaction_id d c = 0
             \<and> ctr_ChargerID req \<in> set (map ch_ID (chargers d))"
  using assms by (simp add: insert_transaction_def exec_stmt_no_faults Let_def)

lemma Create_succeeds_iff_insert:
  "(\<exists>tx d'. Create env now d req = (Inr tx, d'))
   \<longleftrightarrow> (\<exists>c d1. (case ctr_TransactionID req of
                     Some i \<Rightarrow> (Inr i, d)
                   | None \<Rightarrow> GenerateTransactionID env d) = (Inr c, d1)
               \<and> (\<exists>tx d'. insert_transaction now d1 c req = (Inr tx, d')))"
  by (auto simp: Create_def split: prod.splits sum.splits)

lemma Create_no_faults:
  assumes nf: "faults d = []"
  shows "(\<exists>tx d'. Create env now d req = (Inr tx, d'))
         \<longleftrightarrow> seq_transactions d \<noteq> 0x7FFFFFFFFFFFFFFF
             \<and> ctr_ChargerID req \<in> set (map ch_ID (chargers d))
             \<and> (case ctr_TransactionID req of
                  Some i \<Rightarrow> count_transaction_id d i = 0
                | None \<Rightarrow> \<exists>k<10. count_transaction_id d (candidateID (env k)) = 0)"
proof (cases "ctr_TransactionID req")
  case (Some i)
  then show ?thesis
    using insert_transaction_no_faults[OF nf, of now i req]
    by (simp add: Create_succeeds_iff_insert) blast
next
  case None
  let ?ok = "seq_transactions d \<noteq> 0x7FFFFFFFFFFFFFFF
             \<and> ctr_ChargerID req \<in> set (map ch_ID (chargers d))"
  have sn: "snd (GenerateTransactionID env d) = d"
    using generate_loop_no_faults[OF nf] by (simp add: GenerateTransactionID_def)
  have "(\<exists>tx d'. Create env now d req = (Inr tx, d'))
        \<longleftrightarrow> (\<exists>c. GenerateTransactionID env d = (Inr c, d)
                 \<and> (\<exists>tx d'. insert_transaction now d c req = (Inr tx, d')))"
  proof
    assume "\<exists>tx d'. Create env now d req = (Inr tx, d')"
    then obtain c d1 where g: "GenerateTransactionID env d = (Inr c, d1)"
        and i: "\<exists>tx d'. insert_transaction now d1 c req = (Inr tx, d')"
      using None by (auto simp: Create_succeeds_iff_insert)
    from g sn have "d1 = d" by simp
    with g i show "\<exists>c. GenerateTransactionID env d = (Inr c, d)
                 \<and> (\<exists>tx d'. insert_transaction now d c req = (Inr tx, d'))"
      by blast
  next
    assume "\<exists>c. GenerateTransactionID env d = (Inr c, d)
                 \<and> (\<exists>tx d'. insert_transaction now d c req = (Inr tx, d'))"
    then show "\<exists>tx d'. Create env now d req = (Inr tx, d')"
      using None by (auto simp: Create_succeeds_iff_insert)
  qed
  also have "\<dots> \<longleftrightarrow> (\<exists>c. GenerateTransactionID env d = (Inr c, d)
                          \<and> count_transaction_id d c = 0 \<and> ?ok)"
    using insert_transaction_no_faults[OF nf, of now _ req] by blast
  also have "\<dots> \<longleftrightarrow> ?ok \<and> (\<exists>k<10. count_transaction_id d (candidateID (env k)) = 0)"
    using GenerateTransactionID_no_faults(1)[OF nf, of env] by blast
  finally show ?thesis
    using None by simp
qed

text \<open>
  C1, as the code has it. Create makes no check for an Active transaction and has no
  ConnectorBusy failure. On a store whose statements do not fail it succeeds exactly when
  the row id counter is not exhausted, the charger exists and the external transaction id
  is free (the one given, or one of the ten generated candidates): whether the
  (charger, connector) pair already has an Active transaction plays no part. Every
  successful Create appends one Active row for the pair of its request and changes the
  Active rows of no other pair, so the pair has one Active row more than in the store
  the Create ran on.
\<close>

theorem Create_adds_active_row:
  "(Create env now d req = (Inr tx, d')
      \<longrightarrow> filter (is_active_on c k) (transactions d')
           = filter (is_active_on c k) (transactions d)
             @ (if c = ctr_ChargerID req \<and> k = ctr_ConnectorID req then [tx] else []))
   \<and> (faults d = []
      \<longrightarrow> ((\<exists>tx d'. Create env now d req = (Inr tx, d'))
           \<longleftrightarrow> seq_transactions d \<noteq> 0x7FFFFFFFFFFFFFFF
               \<and> ctr_ChargerID req \<in> set (map ch_ID (chargers d))
               \<and> (case ctr_TransactionID req of
                    Some i \<Rightarrow> count_transaction_id d i = 0
                  | None \<Rightarrow> \<exists>k<10. count_transaction_id d (candidateID (env k)) = 0)))"
proof (intro conjI impI)
  assume ok: "Create env now d req = (Inr tx, d')"
  note ap = Create_appends[OF ok]
  have act: "is_active_on c k tx \<longleftrightarrow> c = ctr_ChargerID req \<and> k = ctr_ConnectorID req"
    using ap(2,3,4) by (auto simp: is_active_on_def)
  show "filter (is_active_on c k) (transactions d')
           = filter (is_active_on c k) (transactions d)
             @ (if c = ctr_ChargerID req \<and> k = ctr_ConnectorID req then [tx] else [])"
    by (simp add: ap(1) act)
next
  assume "faults d = []"
  then show "(\<exists>tx d'. Create env now d req = (Inr tx, d'))
           \<longleftrightarrow> seq_transactions d \<noteq> 0x7FFFFFFFFFFFFFFF
               \<and> ctr_ChargerID req \<in> set (map ch_ID (chargers d))
               \<and> (case ctr_TransactionID req of
                    Some i \<Rightarrow> count_transaction_id d i = 0
                  | None \<Rightarrow> \<exists>k<10. count_transaction_id d (candidateID (env k)) = 0)"
    by (rule Create_no_faults)
qed

text \<open>
  C2, as the code has it. A successful Create leaves every row already in the table as
  it is, an Active transaction on the same (charger, connector) pair included, and
  appends the new row, which is Active for the pair of the request with the requested
  start meter and with no stop reason, stop meter or stop time.
\<close>

theorem Create_keeps_existing_rows:
  assumes "Create env now d req = (Inr tx, d')"
  shows "transactions d' = transactions d @ [tx]
       \<and> tx_Status tx = ''Active''
       \<and> tx_ChargerID tx = ctr_ChargerID req
       \<and> tx_ConnectorID tx = ctr_ConnectorID req
       \<and> tx_MeterStart tx = ctr_MeterStart req
       \<and> tx_StopReason tx = [] \<and> tx_MeterStop tx = None \<and> tx_StopTime tx = None"
  using Create_appends[OF assms] by simp

lemma Generate_on_example_db:
  "GenerateTransactionID counting_env example_db = (Inr 1001, example_db)"
proof -
  have e: "exec_stmt example_db = (True, example_db)"
    by (simp add: exec_stmt_def example_db_def)
  have nf: "\<not> fault_at example_db 0"
    by (simp add: fault_at_def example_db_def)
  have c1: "count_transaction_id example_db 1001 = 0"
    by (simp add: count_transaction_id_def example_db_def example_tx_def)
  have c1': "candidateID (counting_env (Suc 0)) = 1001"
    using candidateID_counting_1 by simp
  show ?thesis
    by (simp add: GenerateTransactionID_def generate_loop_step[of 0] generate_loop_step[of "Suc 0"]
          e nf c1 c1' example_count_1000 candidateID_counting_0)
qed

lemma Generate_on_idle_db:
  "GenerateTransactionID counting_env idle_db = (Inr 1000, idle_db)"
proof -
  have e: "exec_stmt idle_db = (True, idle_db)"
    by (simp add: exec_stmt_def idle_db_def)
  have nf: "\<not> fault_at idle_db 0"
    by (simp add: fault_at_def idle_db_def)
  have c0: "count_transaction_id idle_db 1000 = 0"
    by (simp add: count_transaction_id_def idle_db_def)
  show ?thesis
    by (simp add: GenerateTransactionID_def generate_loop_step[of 0] e nf c0
          candidateID_counting_0)
qed

lemma start_req_no_id: "ctr_TransactionID start_req = None"
  by (simp add: start_req_def)

lemma insert_on_example_db:
  "insert_transaction 200 example_db 1001 start_req
   = (Inr second_tx, example_db\<lparr>transactions := [example_tx, second_tx], seq_transactions := 2\<rparr>)"
  by (simp add: insert_transaction_def Let_def exec_stmt_def count_transaction_id_def example_db_def
        example_tx_def start_req_def second_tx_def example_charger_def)

lemma insert_on_idle_db:
  "insert_transaction 100 idle_db 1000 start_req
   = (Inr first_tx, idle_db\<lparr>transactions := [first_tx], seq_transactions := 1\<rparr>)"
  by (simp add: insert_transaction_def Let_def exec_stmt_def count_transaction_id_def idle_db_def
        start_req_def first_tx_def example_charger_def)

lemma Create_on_example_db:
  "Create counting_env 200 example_db start_req
   = (Inr second_tx, example_db\<lparr>transactions := [example_tx, second_tx], seq_transactions := 2\<rparr>)"
  by (simp add: Create_def start_req_no_id Generate_on_example_db insert_on_example_db)

lemma Create_on_idle_db:
  "Create counting_env 100 idle_db start_req
   = (Inr first_tx, idle_db\<lparr>transactions := [first_tx], seq_transactions := 1\<rparr>)"
  by (simp add: Create_def start_req_no_id Generate_on_idle_db insert_on_idle_db)

text \<open>The connector (CP1, 1) has the Active transaction 1; the second pass of the loop
  finds the free identifier 1001, and Create succeeds with a second Active row.\<close>

theorem Create_adds_active_row_witness:
  "faults example_db = []
   \<and> filter (is_active_on ''CP1'' 1) (transactions example_db) = [example_tx]
   \<and> seq_transactions example_db \<noteq> 0x7FFFFFFFFFFFFFFF
   \<and> ctr_ChargerID start_req \<in> set (map ch_ID (chargers example_db))
   \<and> ctr_TransactionID start_req = None
   \<and> count_transaction_id example_db (candidateID (counting_env 1)) = 0
   \<and> Create counting_env 200 example_db start_req
       = (Inr second_tx,
          example_db\<lparr>transactions := [example_tx, second_tx], seq_transactions := 2\<rparr>)
   \<and> filter (is_active_on ''CP1'' 1)
        (transactions (example_db\<lparr>transactions := [example_tx, second_tx],
                                   seq_transactions := 2\<rparr>))
       = [example_tx] @ [second_tx]"
proof -
  let ?d' = "example_db\<lparr>transactions := [example_tx, second_tx], seq_transactions := 2\<rparr>"
  have nf: "faults example_db = []"
    by (simp add: example_db_def)
  have act: "filter (is_active_on ''CP1'' 1) (transactions example_db) = [example_tx]"
    by (simp add: is_active_on_def example_db_def example_tx_def)
  have rq: "ctr_ChargerID start_req = ''CP1''" "ctr_ConnectorID start_req = 1"
    by (simp_all add: start_req_def)
  have sq: "seq_transactions example_db \<noteq> 0x7FFFFFFFFFFFFFFF"
    by (simp add: example_db_def)
  have ch: "ctr_ChargerID start_req \<in> set (map ch_ID (chargers example_db))"
    by (simp add: start_req_def example_db_def example_charger_def)
  have "count_transaction_id example_db 1001 = 0"
    by (simp add: count_transaction_id_def example_db_def example_tx_def)
  then have free: "count_transaction_id example_db (candidateID (counting_env 1)) = 0"
    by (simp only: candidateID_counting_1)
  note inst = Create_adds_active_row[of counting_env 200 example_db start_req second_tx ?d'
      "''CP1''" 1]
  from inst Create_on_example_db
  have grown: "filter (is_active_on ''CP1'' 1) (transactions ?d')
      = filter (is_active_on ''CP1'' 1) (transactions example_db) @ [second_tx]"
    by (simp only: rq simp_thms if_True)
  have "\<exists>k<10. count_transaction_id example_db (candidateID (counting_env k)) = 0"
    using free by (intro exI[of _ 1]) simp
  with sq ch
  have cond: "seq_transactions example_db \<noteq> 0x7FFFFFFFFFFFFFFF
      \<and> ctr_ChargerID start_req \<in> set (map ch_ID (chargers example_db))
      \<and> (case ctr_TransactionID start_req of
           Some i \<Rightarrow> count_transaction_id example_db i = 0
         | None \<Rightarrow> \<exists>k<10. count_transaction_id example_db (candidateID (counting_env k)) = 0)"
    by (simp add: start_req_no_id)
  from inst nf cond
  have "\<exists>tx d'. Create counting_env 200 example_db start_req = (Inr tx, d')"
    by blast
  with nf act sq ch free start_req_no_id grown Create_on_example_db show ?thesis
    by (simp only: simp_thms)
qed

text \<open>C1 as stated fails: the connector has an Active transaction, and a second Create
  on it succeeds and leaves two Active rows for the pair.\<close>

theorem Create_second_active_counterexample:
  "filter (is_active_on ''CP1'' 1) (transactions example_db) = [example_tx]
   \<and> ctr_ChargerID start_req = ''CP1'' \<and> ctr_ConnectorID start_req = 1
   \<and> fst (Create counting_env 200 example_db start_req) = Inr second_tx
   \<and> filter (is_active_on ''CP1'' 1)
        (transactions (snd (Create counting_env 200 example_db start_req)))
       = [example_tx, second_tx]"
  by (simp add: Create_on_example_db)
     (simp add: is_active_on_def example_db_def example_tx_def second_tx_def start_req_def)

theorem Create_keeps_existing_rows_witness:
  "fst (Create counting_env 200 example_db start_req) = Inr second_tx
   \<and> transactions (snd (Create counting_env 200 example_db start_req))
       = transactions example_db @ [second_tx]
   \<and> tx_Status second_tx = ''Active''"
  using Create_keeps_existing_rows[OF Create_on_example_db]
  by (simp add: Create_on_example_db)

text \<open>C2 as stated fails: after the second Create the first transaction is still Active,
  its stop reason is not "Other" and it has no stop meter.\<close>

theorem Create_no_auto_complete_counterexample:
  "transactions example_db = [example_tx]
   \<and> is_active_on ''CP1'' 1 example_tx
   \<and> ctr_ChargerID start_req = ''CP1'' \<and> ctr_ConnectorID start_req = 1
   \<and> fst (Create counting_env 200 example_db start_req) = Inr second_tx
   \<and> transactions (snd (Create counting_env 200 example_db start_req))
       = [example_tx, second_tx]
   \<and> tx_Status example_tx = ''Active''
   \<and> tx_StopReason example_tx \<noteq> ''Other''
   \<and> tx_MeterStop example_tx = None"
  by (simp add: Create_on_example_db)
     (simp add: is_active_on_def example_db_def example_tx_def start_req_def)

section \<open>Schema migrations\<close>

lemma open_ok:
  assumes "\<not> sv_closed s" "\<not> driver_fails menv" "\<not> source_fails menv"
  shows "WithInstance menv s = Inr ()" and "NewWithDatabaseInstance menv = Inr ()"
  using assms by (simp_all add: WithInstance_def NewWithDatabaseInstance_def)

lemma run_up_ok:
  "\<forall>v \<in> set vs. \<not> up_fails menv v \<Longrightarrow>
   run_up menv vs s
     = (Inr (), if vs = [] then s else s\<lparr>sv_version := int (last vs), sv_dirty := False\<rparr>)"
  by (induction vs arbitrary: s) auto

text \<open>What RunMigrations does from a clean state whose version the source knows, when no
  script fails: it returns no error and leaves a clean state.\<close>

lemma RunMigrations_clean:
  assumes opn: "\<not> sv_closed s" "\<not> driver_fails menv" "\<not> source_fails menv"
      and clean: "\<not> sv_dirty s"
      and known: "\<not> version_missing menv (sv_version s)"
      and nofail: "\<forall>v \<in> set (src_versions menv). \<not> up_fails menv v"
  shows "fst (RunMigrationsWithCallback menv s) = Inr ()"
    and "\<not> sv_dirty (snd (snd (RunMigrationsWithCallback menv s)))"
proof -
  let ?vs = "filter (\<lambda>v. sv_version s < int v) (src_versions menv)"
  have nf: "\<forall>v \<in> set ?vs. \<not> up_fails menv v"
    using nofail by simp
  have up: "m_Up menv s
            = (if ?vs = [] then (Inl ErrNoChange, s)
               else (Inr (), s\<lparr>sv_version := int (last ?vs), sv_dirty := False\<rparr>))"
    using clean known run_up_ok[OF nf, of s]
    by (cases ?vs) (simp_all add: m_Up_def)
  have mv: "m_Version s = Inl ErrNilVersion \<or> m_Version s = Inr (nat (sv_version s), False)"
    using clean by (simp add: m_Version_def)
  have r: "fst (RunMigrationsWithCallback menv s) = Inr ()
           \<and> \<not> sv_dirty (snd (snd (RunMigrationsWithCallback menv s)))"
    using mv clean
    by (cases "?vs = []")
       (auto simp: RunMigrationsWithCallback_def open_ok[OF opn] up m_Version_def m_Close_def
             Let_def)
  from r show "fst (RunMigrationsWithCallback menv s) = Inr ()"
    and "\<not> sv_dirty (snd (snd (RunMigrationsWithCallback menv s)))"
    by simp_all
qed

text \<open>
  C5, as the code has it. Let the dirty marker be stored, the handle be open, and the
  driver and the migrate instance be creatable.

  With a stored version v \<ge> 0 (what a failed apply leaves): MigrateDown fails with the
  "database is in dirty state" error and leaves the stored state as it is. RunMigrations
  does not fail on the marker: it first forces the stored version to v, which clears the
  marker, and so runs exactly as it does from the clean state at version v; when the
  source knows v and no up script fails, it returns no error and leaves a clean state.

  With no stored version (the marker left by a failed rollback of the lowest migration):
  RunMigrations fails with the library's dirty error, wrapped as "failed to run
  migrations", and leaves the stored state as it is.

  In every case ForceMigrationVersion with a version of at least -1 stores that version
  and clears the marker, and reading the version (GetMigrationVersion) leaves the stored
  state as it is.
\<close>

theorem dirty_state_handling:
  assumes dirty: "sv_dirty s"
      and opn: "\<not> sv_closed s" "\<not> driver_fails menv" "\<not> source_fails menv"
  shows "(0 \<le> sv_version s \<longrightarrow>
            MigrateDown menv s n = (Inl DirtyState, m_Close s)
          \<and> RunMigrationsWithCallback menv s
              = RunMigrationsWithCallback menv (s\<lparr>sv_dirty := False\<rparr>)
          \<and> (nat (sv_version s) \<in> set (src_versions menv)
               \<and> (\<forall>v \<in> set (src_versions menv). \<not> up_fails menv v)
             \<longrightarrow> fst (RunMigrationsWithCallback menv s) = Inr ()
                 \<and> \<not> sv_dirty (snd (snd (RunMigrationsWithCallback menv s)))))
       \<and> (sv_version s = -1 \<longrightarrow>
            RunMigrationsWithCallback menv s
              = (Inl (Wrapped ''failed to run migrations'' (ErrDirty (-1))),
                 Some \<lparr>mr_FromVersion = 0, mr_ToVersion = 0, mr_Applied = False,
                       mr_Error = Some (ErrDirty (-1))\<rparr>,
                 m_Close s))
       \<and> (-1 \<le> version \<longrightarrow>
            ForceMigrationVersion menv s version
              = (Inr (), s\<lparr>sv_version := version, sv_dirty := False, sv_closed := True\<rparr>))
       \<and> snd (GetMigrationVersion menv s) = m_Close s"
proof (intro conjI impI)
  assume v: "0 \<le> sv_version s"
  then have mv: "m_Version s = Inr (nat (sv_version s), True)"
    using dirty by (simp add: m_Version_def)
  show "MigrateDown menv s n = (Inl DirtyState, m_Close s)"
    by (simp add: MigrateDown_def open_ok[OF opn] mv)
  have forced: "m_Force (sv_version s) s = (Inr (), s\<lparr>sv_dirty := False\<rparr>)"
    using v by (simp add: m_Force_def)
  have mv': "m_Version (s\<lparr>sv_dirty := False\<rparr>) = Inr (nat (sv_version s), False)"
    using v by (simp add: m_Version_def)
  have opn': "\<not> sv_closed (s\<lparr>sv_dirty := False\<rparr>)"
    using opn(1) by simp
  show same: "RunMigrationsWithCallback menv s
        = RunMigrationsWithCallback menv (s\<lparr>sv_dirty := False\<rparr>)"
    using v
    by (simp add: RunMigrationsWithCallback_def open_ok[OF opn] open_ok[OF opn' opn(2,3)]
          mv mv' forced)
  assume src: "nat (sv_version s) \<in> set (src_versions menv)
               \<and> (\<forall>v \<in> set (src_versions menv). \<not> up_fails menv v)"
  then have known: "\<not> version_missing menv (sv_version (s\<lparr>sv_dirty := False\<rparr>))"
    by (simp add: version_missing_def)
  have clean: "\<not> sv_dirty (s\<lparr>sv_dirty := False\<rparr>)"
    by simp
  from src have nofail: "\<forall>v \<in> set (src_versions menv). \<not> up_fails menv v" ..
  from RunMigrations_clean[OF opn' opn(2,3) clean known nofail]
  show "fst (RunMigrationsWithCallback menv s) = Inr ()"
    and "\<not> sv_dirty (snd (snd (RunMigrationsWithCallback menv s)))"
    by (simp_all only: same simp_thms)
next
  assume v: "sv_version s = -1"
  then have mv: "m_Version s = Inl ErrNilVersion"
    by (simp add: m_Version_def)
  have up: "m_Up menv s = (Inl (ErrDirty (-1)), s)"
    using dirty v by (simp add: m_Up_def)
  show "RunMigrationsWithCallback menv s
        = (Inl (Wrapped ''failed to run migrations'' (ErrDirty (-1))),
           Some \<lparr>mr_FromVersion = 0, mr_ToVersion = 0, mr_Applied = False,
                 mr_Error = Some (ErrDirty (-1))\<rparr>,
           m_Close s)"
    by (simp add: RunMigrationsWithCallback_def open_ok[OF opn] mv up)
next
  assume "-1 \<le> version"
  then show "ForceMigrationVersion menv s version
        = (Inr (), s\<lparr>sv_version := version, sv_dirty := False, sv_closed := True\<rparr>)"
    by (simp add: ForceMigrationVersion_def open_ok[OF opn] m_Force_def m_Close_def)
next
  show "snd (GetMigrationVersion menv s) = m_Close s"
    by (simp add: GetMigrationVersion_def open_ok[OF opn] m_Version_def)
qed

text \<open>C5 as stated fails: on a dirty state at version 1 RunMigrations returns no error, and
  the state it leaves is clean although ForceMigrationVersion was never called.\<close>

theorem RunMigrations_dirty_counterexample:
  "sv_dirty dirty_state
   \<and> fst (GetMigrationVersion one_migration dirty_state) = Inr (1, True)
   \<and> RunMigrationsWithCallback one_migration dirty_state
       = (Inr (),
          Some \<lparr>mr_FromVersion = 1, mr_ToVersion = 1, mr_Applied = True, mr_Error = None\<rparr>,
          \<lparr>sv_version = 1, sv_dirty = False, sv_closed = True\<rparr>)"
  by (simp add: GetMigrationVersion_def RunMigrationsWithCallback_def WithInstance_def
        NewWithDatabaseInstance_def m_Close_def m_Version_def m_Force_def
        m_Up_def version_missing_def dirty_state_def one_migration_def)

theorem dirty_state_handling_witness:
  "sv_dirty dirty_state \<and> \<not> sv_closed dirty_state
   \<and> \<not> driver_fails one_migration \<and> \<not> source_fails one_migration
   \<and> sv_version dirty_state = 1
   \<and> MigrateDown one_migration dirty_state 1 = (Inl DirtyState, m_Close dirty_state)
   \<and> fst (RunMigrationsWithCallback one_migration dirty_state) = Inr ()
   \<and> \<not> sv_dirty (snd (snd (RunMigrationsWithCallback one_migration dirty_state)))
   \<and> ForceMigrationVersion one_migration dirty_state 1
       = (Inr (), \<lparr>sv_version = 1, sv_dirty = False, sv_closed = True\<rparr>)
   \<and> sv_dirty dirty_nil_state \<and> \<not> sv_closed dirty_nil_state
   \<and> sv_version dirty_nil_state = -1
   \<and> RunMigrationsWithCallback one_migration dirty_nil_state
       = (Inl (Wrapped ''failed to run migrations'' (ErrDirty (-1))),
          Some \<lparr>mr_FromVersion = 0, mr_ToVersion = 0, mr_Applied = False,
                mr_Error = Some (ErrDirty (-1))\<rparr>,
          m_Close dirty_nil_state)"
proof -
  have h: "sv_dirty dirty_state" "\<not> sv_closed dirty_state" "sv_version dirty_state = 1"
    by (simp_all add: dirty_state_def)
  have e: "\<not> driver_fails one_migration" "\<not> source_fails one_migration"
    by (simp_all add: one_migration_def)
  have k: "sv_dirty dirty_nil_state" "\<not> sv_closed dirty_nil_state"
      "sv_version dirty_nil_state = -1"
    by (simp_all add: dirty_nil_state_def)
  have src: "nat (sv_version dirty_state) \<in> set (src_versions one_migration)
             \<and> (\<forall>v \<in> set (src_versions one_migration). \<not> up_fails one_migration v)"
    by (simp add: dirty_state_def one_migration_def)
  have f: "dirty_state\<lparr>sv_version := 1, sv_dirty := False, sv_closed := True\<rparr>
           = \<lparr>sv_version = 1, sv_dirty = False, sv_closed = True\<rparr>"
    by (simp add: dirty_state_def)
  have hv: "0 \<le> sv_version dirty_state" and fv: "(-1::int) \<le> 1"
    using h(3) by simp_all
  from dirty_state_handling[OF h(1,2) e, of 1 1] src hv fv
  have a: "MigrateDown one_migration dirty_state 1 = (Inl DirtyState, m_Close dirty_state)"
      "fst (RunMigrationsWithCallback one_migration dirty_state) = Inr ()"
      "\<not> sv_dirty (snd (snd (RunMigrationsWithCallback one_migration dirty_state)))"
      "ForceMigrationVersion one_migration dirty_state 1
         = (Inr (), dirty_state\<lparr>sv_version := 1, sv_dirty := False, sv_closed := True\<rparr>)"
    by blast+
  from dirty_state_handling[OF k(1,2) e, of 1 1] k(3)
  have b: "RunMigrationsWithCallback one_migration dirty_nil_state
       = (Inl (Wrapped ''failed to run migrations'' (ErrDirty (-1))),
          Some \<lparr>mr_FromVersion = 0, mr_ToVersion = 0, mr_Applied = False,
                mr_Error = Some (ErrDirty (-1))\<rparr>,
          m_Close dirty_nil_state)"
    by blast
  from h e k a b show ?thesis
    by (simp only: f simp_thms)
qed

subsection \<open>Rolling back\<close>

lemma run_down_ok:
  "\<forall>p \<in> set plan. \<not> down_fails menv (fst p) \<Longrightarrow>
   run_down menv plan s
     = (Inr (), if plan = [] then s
                else s\<lparr>sv_version := snd (last plan), sv_dirty := False\<rparr>)"
  by (induction plan arbitrary: s) auto

lemma down_plan_last:
  "desc \<noteq> [] \<Longrightarrow> down_plan desc floor \<noteq> [] \<and> snd (last (down_plan desc floor)) = floor"
  by (cases desc) (simp_all add: down_plan_def last_zip)

lemma down_plan_versions:
  "p \<in> set (down_plan desc floor) \<Longrightarrow> fst p \<in> set desc"
  by (cases p) (auto simp: down_plan_def dest: set_zip_leftD)

lemma run_down_plan:
  assumes "\<forall>v \<in> set desc. \<not> down_fails menv v"
  shows "run_down menv (down_plan desc floor) s
         = (Inr (), if desc = [] then s else s\<lparr>sv_version := floor, sv_dirty := False\<rparr>)"
proof (cases "desc = []")
  case True
  then show ?thesis by (simp add: down_plan_def)
next
  case False
  have "\<forall>p \<in> set (down_plan desc floor). \<not> down_fails menv (fst p)"
    using assms down_plan_versions by blast
  from run_down_ok[OF this] down_plan_last[OF False, of floor] False show ?thesis
    by simp
qed

text \<open>Where the stored state is clean, the source holds the versions 1..N and no down
  script fails, MigrateDown(n) leaves the version max(0, v - n), stored as NilVersion
  when that is 0. Where the marker is stored with a version, it fails with the
  "database is in dirty state" error.\<close>

lemma MigrateDown_clean:
  assumes opn: "\<not> sv_closed s" "\<not> driver_fails menv" "\<not> source_fails menv"
      and vs: "src_versions menv = [1..<Suc N]"
      and nofail: "\<forall>v \<in> set (src_versions menv). \<not> down_fails menv v"
      and n: "0 \<le> n"
      and ver: "sv_version s = int v" and pos: "0 < v" and le: "v \<le> N"
      and clean: "\<not> sv_dirty s"
  shows "MigrateDown menv s n
         = (Inr (), if n = 0 then m_Close s
                    else s\<lparr>sv_version := (if int v \<le> n then -1 else int v - n),
                           sv_dirty := False, sv_closed := True\<rparr>)"
proof -
  have inset: "x \<in> set (src_versions menv) \<longleftrightarrow> 0 < x \<and> x \<le> N" for x
    unfolding vs by (simp del: upt_Suc) arith
  have mv: "m_Version s = Inr (v, False)"
    using ver pos clean by (simp add: m_Version_def)
  have here: "\<not> version_missing menv (sv_version s)"
    using ver pos le by (simp add: version_missing_def inset)
  show ?thesis
  proof (cases "int v \<le> n")
    case True
    let ?desc = "rev (filter (\<lambda>x. int x \<le> sv_version s) (src_versions menv))"
    have mem: "v \<in> set ?desc"
      using ver pos le by (simp add: inset)
    have ne: "?desc \<noteq> []"
    proof
      assume "?desc = []"
      with mem show False by (simp only: list.set empty_iff)
    qed
    have nf: "\<forall>x \<in> set ?desc. \<not> down_fails menv x"
      using nofail by simp
    have "m_Down menv s = (Inr (), s\<lparr>sv_version := -1, sv_dirty := False\<rparr>)"
      using clean ver pos here run_down_plan[OF nf, of "-1" s] ne
      by (simp add: m_Down_def)
    moreover have "n \<noteq> 0" using True pos by auto
    ultimately show ?thesis
      using True by (simp add: MigrateDown_def open_ok[OF opn] mv Let_def m_Close_def)
  next
    case False
    then have t: "0 < int v - n" "nat (int v - n) \<le> N" "0 < nat (int v - n)"
      using n le by auto
    have there: "\<not> version_missing menv (int (nat (int v - n)))"
      using t by (simp add: version_missing_def inset)
    show ?thesis
    proof (cases "n = 0")
      case True
      then have "m_Migrate menv (nat (int v - n)) s = (Inl ErrNoChange, s)"
        using clean here ver by (simp add: m_Migrate_def)
      with True pos show ?thesis
        by (simp add: MigrateDown_def open_ok[OF opn] mv Let_def)
    next
      case n0: False
      let ?t = "nat (int v - n)"
      let ?desc = "rev (filter (\<lambda>x. ?t < x \<and> int x \<le> sv_version s) (src_versions menv))"
      have lt: "?t < v" using n n0 False by auto
      then have mem: "v \<in> set ?desc"
        using ver pos le by (simp add: inset)
      have ne: "?desc \<noteq> []"
      proof
        assume "?desc = []"
        with mem show False by (simp only: list.set empty_iff)
      qed
      have nf: "\<forall>x \<in> set ?desc. \<not> down_fails menv x"
        using nofail by simp
      have ilt: "int ?t < sv_version s"
        unfolding ver using lt by (simp only: of_nat_less_iff)
      have neq: "sv_version s \<noteq> int ?t" "\<not> sv_version s < int ?t"
        using ilt by linarith+
      have "m_Migrate menv ?t s = (Inr (), s\<lparr>sv_version := int ?t, sv_dirty := False\<rparr>)"
        using clean here there neq run_down_plan[OF nf, of "int ?t" s] ne
        by (simp add: m_Migrate_def)
      with False n0 t show ?thesis
        by (simp add: MigrateDown_def open_ok[OF opn] mv Let_def m_Close_def)
    qed
  qed
qed

lemma MigrateDown_three_by_two:
  "MigrateDown three_migrations at_version_3 2
   = (Inr (), \<lparr>sv_version = 1, sv_dirty = False, sv_closed = True\<rparr>)"
proof -
  have "src_versions three_migrations = [1..<Suc 3]"
    by (simp add: three_migrations_def upt_rec)
  from MigrateDown_clean[OF _ _ _ this, of at_version_3 2 3] show ?thesis
    by (simp add: three_migrations_def at_version_3_def)
qed

lemma MigrateDown_dirty_at_version:
  assumes "\<not> sv_closed s" "\<not> driver_fails menv" "\<not> source_fails menv"
      and "sv_dirty s" and "0 \<le> sv_version s"
  shows "MigrateDown menv s n = (Inl DirtyState, m_Close s)"
  using assms by (simp add: MigrateDown_def open_ok m_Version_def)

lemma MigrateDown_closed_handle:
  "sv_closed s \<Longrightarrow>
   MigrateDown menv s n = (Inl (Wrapped ''failed to create sqlite3 driver'' ErrDatabaseClosed), s)"
  by (simp add: MigrateDown_def WithInstance_def)

text \<open>
  C6 at a failing input. The schema is at version 1, the lowest migration, and its
  down script fails: MigrateDown(1) reports the failure and leaves the dirty marker stored
  with NilVersion. A later MigrateDown(1), through a new handle on the same file, reads
  the version first and returns on \<open>ErrNilVersion\<close> before it looks at the marker: it
  returns no error although the dirty marker is set, and the marker stays.
\<close>

theorem MigrateDown_misses_dirty_nil_version:
  "MigrateDown failing_down at_version_1 1
     = (Inl (Wrapped ''failed to rollback migrations'' (ScriptFailed 1)),
        \<lparr>sv_version = -1, sv_dirty = True, sv_closed = True\<rparr>)
   \<and> new_handle (snd (MigrateDown failing_down at_version_1 1)) = dirty_nil_state
   \<and> sv_dirty dirty_nil_state
   \<and> MigrateDown failing_down dirty_nil_state 1
       = (Inr (), \<lparr>sv_version = -1, sv_dirty = True, sv_closed = True\<rparr>)"
  by (simp add: MigrateDown_def WithInstance_def NewWithDatabaseInstance_def m_Close_def
        m_Version_def m_Down_def version_missing_def down_plan_def new_handle_def
        failing_down_def at_version_1_def dirty_nil_state_def)

end
